theory Spec2Isabelle
  imports Main
begin

section \<open>The dashboard page: push channel, polling fallback, submission\<close>

text \<open>
  A shallow embedding of \<^verbatim>\<open>src/app/dashboard/page.tsx\<close> (the component
  \<^verbatim>\<open>DashboardPage\<close>), of the start button of \<^verbatim>\<open>src/components/task-input.tsx\<close> and of
  the choice of panel in \<^verbatim>\<open>src/components/results-panel.tsx\<close>.

  The component's React state and refs are the fields of one record; each callback of the
  source (a WebSocket handler, a timer callback, the submit handler, the effect cleanup) is
  a function from the record to the record. A \<^verbatim>\<open>setX(v)\<close> call is the field update:
  no callback reads a state variable after setting it, so queued and immediate updates
  agree on the state a callback leaves behind.

  What the browser owns is in the record too: the table of live timers
  (\<^verbatim>\<open>setTimeout\<close>, \<^verbatim>\<open>setInterval\<close>, \<^verbatim>\<open>clearTimeout\<close>, \<^verbatim>\<open>clearInterval\<close>), the
  sockets created by \<^verbatim>\<open>new WebSocket\<close>, the variables of each poll closure, and the list
  of outward actions (requests, alerts, navigation) in the order they were issued.
  \<^verbatim>\<open>console.log\<close> is not modelled.
\<close>

subsection \<open>Values\<close>

type_synonym timer_id = nat
type_synonym sock_id = nat

text \<open>Two kinds of strings. The task description and the user id are the strings the code
  trims, so they are kept as JavaScript has them: lists of UTF-16 code units. The other
  strings (task ids, file names, messages, tokens) are only compared, concatenated or
  tested for emptiness; they are \<open>string\<close>. \<open>js\<close> writes a literal of the source as code
  units.\<close>

type_synonym jstring = "nat list"

definition js :: "string \<Rightarrow> jstring" where
  "js t = map of_char t"

text \<open>The object held by \<^verbatim>\<open>result\<close>: the fields the page writes in its literals, and
  \<^verbatim>\<open>message\<close>, which \<^verbatim>\<open>ResultsPanel\<close> reads.\<close>

record result_obj =
  r_error :: "string option"
  r_message :: "string option"
  r_status :: "string option"
  r_summary :: "string option"
  r_insights :: "string list"
  r_recommendations :: "string list"

text \<open>An entry of \<^verbatim>\<open>agentLogs\<close>.\<close>

record log_entry =
  agent :: string
  action :: string
  message :: string
  timestamp :: string

text \<open>A parsed push notification: \<^verbatim>\<open>{type, task_id, log, result, error}\<close>; a field that is
  absent is \<open>None\<close>.\<close>

record msg =
  m_type :: string
  m_task_id :: "string option"
  m_log :: "log_entry option"
  m_result :: "result_obj option"
  m_error :: "string option"

text \<open>An inbound frame: the text \<^verbatim>\<open>pong\<close>, a text on which \<^verbatim>\<open>JSON.parse\<close> throws, or
  a parsed notification.\<close>

datatype frame = Pong | Malformed | Json msg

datatype ready_state = CONNECTING | OPEN | CLOSING | CLOSED

record socket =
  ws_uid :: jstring
  readyState :: ready_state

text \<open>The callbacks handed to \<^verbatim>\<open>setTimeout\<close> and \<^verbatim>\<open>setInterval\<close>: the reconnect
  callback closes over \<^verbatim>\<open>uid\<close>, the ping callback over the socket \<^verbatim>\<open>ws\<close>; the variables
  of a poll callback are kept in the closure table under the timer's id.\<close>

datatype callback = ReconnectCb jstring | PingCb sock_id | PollCb

record timer_entry =
  t_id :: timer_id
  t_cb :: callback
  t_delay :: nat
  t_repeat :: bool

text \<open>The variables a poll callback closes over: its own counter \<^verbatim>\<open>pollCount\<close>, the
  \<^verbatim>\<open>newTaskId\<close> of its submission, and the \<^verbatim>\<open>showResults\<close> and \<^verbatim>\<open>agentLogs\<close> of the
  render whose \<^verbatim>\<open>handleStartTaskWithFiles\<close> created it (constants of that render).\<close>

record poll_closure =
  pollCount :: nat
  newTaskId :: string
  cap_showResults :: bool
  cap_agentLogs :: "log_entry list"

text \<open>Outward actions, in the order issued.\<close>

datatype effect =
    Alert string
  | RouterPush string
  | UploadReq string
  | CreateTaskReq jstring "string list"
  | GetTaskReq string
  | WsSend sock_id string

record dashboard =
  isRunning :: bool
  showResults :: bool
  result :: "result_obj option"
  userId :: "jstring option"
  wsRef :: "sock_id option"
  taskIdRef :: "string option"
  uploadProgress :: "(string \<times> nat) list"
  agentLogs :: "log_entry list"
  reconnectTimeoutRef :: "timer_id option"
  wsConnected :: bool
  pingIntervalRef :: "timer_id option"
  pollIntervalRef :: "timer_id option"
  timers :: "timer_entry list"
  nextTimer :: timer_id
  sockets :: "(sock_id \<times> socket) list"
  nextSock :: sock_id
  closures :: "(timer_id \<times> poll_closure) list"
  outbox :: "effect list"

text \<open>The component as mounted: the initial values of \<^verbatim>\<open>useState\<close> and \<^verbatim>\<open>useRef\<close>.
  Timer ids start at 1: a browser's timer id is greater than zero, hence truthy.\<close>

definition init :: dashboard where
  "init = \<lparr> isRunning = False, showResults = False, result = None, userId = None,
            wsRef = None, taskIdRef = None, uploadProgress = [], agentLogs = [],
            reconnectTimeoutRef = None, wsConnected = False, pingIntervalRef = None,
            pollIntervalRef = None, timers = [], nextTimer = 1, sockets = [],
            nextSock = 0, closures = [], outbox = [] \<rparr>"

subsection \<open>JavaScript primitives\<close>

text \<open>Truthiness of a \<^verbatim>\<open>string | null | undefined\<close>: present and not empty.\<close>

definition truthy :: "string option \<Rightarrow> bool" where
  "truthy v = (case v of None \<Rightarrow> False | Some t \<Rightarrow> t \<noteq> [])"

text \<open>\<^verbatim>\<open>s.trim() === ''\<close>: every code unit of \<open>s\<close> is white space or a line terminator
  of ECMAScript. These are TAB, LF, VT, FF, CR, SP, NBSP (U+00A0), the other space
  separators of Unicode (U+1680, U+2000 to U+200A, U+202F, U+205F, U+3000), LS (U+2028),
  PS (U+2029) and ZWNBSP (U+FEFF); each is one code unit.\<close>

definition js_space :: "nat \<Rightarrow> bool" where
  "js_space c =
     ((0x09 \<le> c \<and> c \<le> 0x0D) \<or> c = 0x20 \<or> c = 0xA0 \<or> c = 0x1680 \<or>
      (0x2000 \<le> c \<and> c \<le> 0x200A) \<or> c = 0x2028 \<or> c = 0x2029 \<or> c = 0x202F \<or>
      c = 0x205F \<or> c = 0x3000 \<or> c = 0xFEFF)"

definition blank :: "jstring \<Rightarrow> bool" where
  "blank t = list_all js_space t"

definition setTimer :: "dashboard \<Rightarrow> callback \<Rightarrow> nat \<Rightarrow> bool \<Rightarrow> dashboard" where
  "setTimer s cb d rep =
     s\<lparr> timers := timers s @ [\<lparr> t_id = nextTimer s, t_cb = cb, t_delay = d, t_repeat = rep \<rparr>],
        nextTimer := Suc (nextTimer s) \<rparr>"

text \<open>\<^verbatim>\<open>clearTimeout\<close> and \<^verbatim>\<open>clearInterval\<close> (one id space, one table).\<close>

definition clearTimer :: "dashboard \<Rightarrow> timer_id \<Rightarrow> dashboard" where
  "clearTimer s i = s\<lparr> timers := filter (\<lambda>t. t_id t \<noteq> i) (timers s) \<rparr>"

definition setReadyState :: "dashboard \<Rightarrow> sock_id \<Rightarrow> ready_state \<Rightarrow> dashboard" where
  "setReadyState s k r =
     s\<lparr> sockets := map (\<lambda>(i, so). if i = k then (i, so\<lparr> readyState := r \<rparr>) else (i, so))
                       (sockets s) \<rparr>"

definition sockState :: "dashboard \<Rightarrow> sock_id \<Rightarrow> ready_state option" where
  "sockState s k = map_option readyState (map_of (sockets s) k)"

text \<open>\<^verbatim>\<open>ws.close()\<close>: a socket that is connecting or open starts closing; its close event
  comes later, as an event of its own.\<close>

definition ws_close :: "dashboard \<Rightarrow> sock_id \<Rightarrow> dashboard" where
  "ws_close s k =
     (if sockState s k = Some CONNECTING \<or> sockState s k = Some OPEN
      then setReadyState s k CLOSING else s)"

definition emit :: "dashboard \<Rightarrow> effect \<Rightarrow> dashboard" where
  "emit s e = s\<lparr> outbox := outbox s @ [e] \<rparr>"

subsection \<open>setupWebSocket and the socket's handlers\<close>

definition invalid_uid :: "jstring \<Rightarrow> bool" where
  "invalid_uid uid =
     (uid = [] \<or> uid = js ''undefined'' \<or> uid = js ''null'' \<or> blank uid)"

text \<open>\<^verbatim>\<open>setupWebSocket(uid)\<close>. \<open>ok\<close> says whether \<^verbatim>\<open>new WebSocket(wsUrl)\<close> returns; when it
  throws, the \<^verbatim>\<open>catch\<close> logs and \<^verbatim>\<open>wsRef.current\<close> stays null.\<close>

definition setupWebSocket :: "dashboard \<Rightarrow> jstring \<Rightarrow> bool \<Rightarrow> dashboard" where
  "setupWebSocket s uid ok =
     (if invalid_uid uid then s
      else if (case wsRef s of None \<Rightarrow> False | Some k \<Rightarrow> sockState s k = Some OPEN) then s
      else
        let s1 = (case wsRef s of None \<Rightarrow> s | Some k \<Rightarrow> (ws_close s k)\<lparr> wsRef := None \<rparr>)
        in if ok
           then s1\<lparr> sockets := sockets s1 @ [(nextSock s1, \<lparr> ws_uid = uid, readyState = CONNECTING \<rparr>)],
                    nextSock := Suc (nextSock s1),
                    wsRef := Some (nextSock s1) \<rparr>
           else s1)"

text \<open>\<^verbatim>\<open>ws.onopen\<close> of the socket \<open>k\<close>.\<close>

definition ws_onopen :: "dashboard \<Rightarrow> sock_id \<Rightarrow> dashboard" where
  "ws_onopen s k =
     (let s1 = s\<lparr> wsConnected := True \<rparr>;
          s2 = (case reconnectTimeoutRef s1 of None \<Rightarrow> s1
                | Some r \<Rightarrow> (clearTimer s1 r)\<lparr> reconnectTimeoutRef := None \<rparr>);
          s3 = (case pingIntervalRef s2 of None \<Rightarrow> s2 | Some p \<Rightarrow> clearTimer s2 p)
      in (setTimer s3 (PingCb k) 30000 True)\<lparr> pingIntervalRef := Some (nextTimer s3) \<rparr>)"

text \<open>The block both terminal branches of \<^verbatim>\<open>ws.onmessage\<close> and of the poll callback
  share: \<^verbatim>\<open>if (pollIntervalRef.current) { clearInterval(...); pollIntervalRef.current = null }\<close>.\<close>

definition stop_poll :: "dashboard \<Rightarrow> dashboard" where
  "stop_poll s =
     (case pollIntervalRef s of None \<Rightarrow> s
      | Some p \<Rightarrow> (clearTimer s p)\<lparr> pollIntervalRef := None \<rparr>)"

text \<open>The object \<^verbatim>\<open>ws.onmessage\<close> stores for a \<^verbatim>\<open>task_error\<close> frame; an absent
  \<^verbatim>\<open>msg.error\<close> prints as \<^verbatim>\<open>undefined\<close> in the template string.\<close>

definition push_error_result :: "string option \<Rightarrow> result_obj" where
  "push_error_result e =
     \<lparr> r_error = e, r_message = None, r_status = Some ''error'',
       r_summary = Some (''Error: '' @ (case e of None \<Rightarrow> ''undefined'' | Some t \<Rightarrow> t)),
       r_insights = [''An error occurred''],
       r_recommendations = [''Please try again''] \<rparr>"

text \<open>The identity filter of \<^verbatim>\<open>ws.onmessage\<close>:
  \<^verbatim>\<open>taskIdRef.current && msg.task_id && msg.task_id !== taskIdRef.current\<close>.\<close>

definition filtered :: "dashboard \<Rightarrow> msg \<Rightarrow> bool" where
  "filtered s m =
     (truthy (taskIdRef s) \<and> truthy (m_task_id m) \<and> m_task_id m \<noteq> taskIdRef s)"

text \<open>\<^verbatim>\<open>ws.onmessage\<close>. The three \<^verbatim>\<open>if (msg.type === ...)\<close> of the source test one
  string, so at most one applies. An \<^verbatim>\<open>agent_log\<close> frame without \<^verbatim>\<open>log\<close> throws at
  \<^verbatim>\<open>msg.log.agent\<close>, before \<^verbatim>\<open>setAgentLogs\<close>; the \<^verbatim>\<open>catch\<close> logs it.\<close>

definition ws_onmessage :: "dashboard \<Rightarrow> frame \<Rightarrow> dashboard" where
  "ws_onmessage s fr =
     (case fr of
        Pong \<Rightarrow> s
      | Malformed \<Rightarrow> s
      | Json m \<Rightarrow>
          if filtered s m then s
          else if m_type m = ''agent_log'' then
            (case m_log m of None \<Rightarrow> s
             | Some l \<Rightarrow> s\<lparr> agentLogs := agentLogs s @ [l] \<rparr>)
          else if m_type m = ''task_completed'' then
            stop_poll (s\<lparr> result := m_result m, showResults := True, isRunning := False,
                          taskIdRef := None \<rparr>)
          else if m_type m = ''task_error'' then
            stop_poll (s\<lparr> result := Some (push_error_result (m_error m)), showResults := True,
                          isRunning := False, taskIdRef := None \<rparr>)
          else s)"

definition ws_onerror :: "dashboard \<Rightarrow> dashboard" where
  "ws_onerror s = s\<lparr> wsConnected := False \<rparr>"

text \<open>\<^verbatim>\<open>ws.onclose\<close> of a socket created by \<^verbatim>\<open>setupWebSocket(uid)\<close>.\<close>

definition ws_onclose :: "dashboard \<Rightarrow> jstring \<Rightarrow> dashboard" where
  "ws_onclose s uid =
     (let s1 = s\<lparr> wsRef := None, wsConnected := False \<rparr>;
          s2 = (case pingIntervalRef s1 of None \<Rightarrow> s1
                | Some p \<Rightarrow> (clearTimer s1 p)\<lparr> pingIntervalRef := None \<rparr>)
      in if uid \<noteq> [] \<and> reconnectTimeoutRef s2 = None
         then (setTimer s2 (ReconnectCb uid) 3000 False)\<lparr> reconnectTimeoutRef := Some (nextTimer s2) \<rparr>
         else s2)"

text \<open>The callback of the reconnect timer.\<close>

definition reconnect_cb :: "dashboard \<Rightarrow> jstring \<Rightarrow> bool \<Rightarrow> dashboard" where
  "reconnect_cb s uid ok = setupWebSocket (s\<lparr> reconnectTimeoutRef := None \<rparr>) uid ok"

text \<open>The callback of the ping interval.\<close>

definition ping_cb :: "dashboard \<Rightarrow> sock_id \<Rightarrow> dashboard" where
  "ping_cb s k = (if sockState s k = Some OPEN then emit s (WsSend k ''ping'') else s)"

subsection \<open>The poll callback\<close>

definition maxPolls :: nat where
  "maxPolls = 30"

text \<open>The object the poll callback stores when the task's status is \<^verbatim>\<open>error\<close> and the
  task carries no result.\<close>

definition poll_failed_result :: result_obj where
  "poll_failed_result =
     \<lparr> r_error = Some ''Task failed'', r_message = None, r_status = Some ''error'',
       r_summary = Some ''Task failed'',
       r_insights = [''Error occurred''],
       r_recommendations = [''Try again''] \<rparr>"

text \<open>The object the poll callback stores when \<^verbatim>\<open>pollCount >= maxPolls\<close>.\<close>

definition timeout_result :: result_obj where
  "timeout_result =
     \<lparr> r_error = None, r_message = None, r_status = Some ''error'',
       r_summary = Some ''Task taking longer than expected'',
       r_insights = [''May still be processing''],
       r_recommendations = [''Check History page later''] \<rparr>"

definition fallback_log :: "string \<Rightarrow> log_entry" where
  "fallback_log now =
     \<lparr> agent = ''System'', action = ''completed'',
       message = ''Task completed (fallback retrieval)'', timestamp = now \<rparr>"

text \<open>What \<^verbatim>\<open>GET /api/tasks/:id\<close> gives the callback: the \<^verbatim>\<open>fetch\<close> or the body's
  \<^verbatim>\<open>json()\<close> throws (also a body without \<^verbatim>\<open>task\<close>), a response that is not
  \<^verbatim>\<open>ok\<close>, or \<^verbatim>\<open>task.status\<close> with \<^verbatim>\<open>task.result\<close>.\<close>

datatype poll_response = PollThrows | PollNotOk | PollOk string "result_obj option"

definition set_closure :: "dashboard \<Rightarrow> timer_id \<Rightarrow> poll_closure \<Rightarrow> dashboard" where
  "set_closure s c pc =
     s\<lparr> closures := map (\<lambda>(i, q). if i = c then (i, pc) else (i, q)) (closures s) \<rparr>"

text \<open>The callback up to its first \<^verbatim>\<open>await\<close>: \<^verbatim>\<open>pollCount++\<close>, the test of the captured
  \<^verbatim>\<open>showResults\<close> and \<^verbatim>\<open>agentLogs\<close>, and the \<^verbatim>\<open>fetch\<close>. The flag says whether the
  request was issued.\<close>

definition poll_begin :: "dashboard \<Rightarrow> timer_id \<Rightarrow> dashboard \<times> bool" where
  "poll_begin s c =
     (case map_of (closures s) c of
        None \<Rightarrow> (s, False)
      | Some pc \<Rightarrow>
          let s1 = set_closure s c (pc\<lparr> pollCount := Suc (pollCount pc) \<rparr>)
          in if cap_showResults pc \<or> cap_agentLogs pc \<noteq> []
             then (stop_poll s1, False)
             else (emit s1 (GetTaskReq (newTaskId pc)), True))"

text \<open>The callback from the response on; \<open>now\<close> is \<^verbatim>\<open>new Date().toISOString()\<close>.\<close>

definition poll_resume :: "dashboard \<Rightarrow> timer_id \<Rightarrow> poll_response \<Rightarrow> string \<Rightarrow> dashboard" where
  "poll_resume s c resp now =
     (case map_of (closures s) c of
        None \<Rightarrow> s
      | Some pc \<Rightarrow>
          let s1 =
            (case resp of
               PollThrows \<Rightarrow> s
             | PollNotOk \<Rightarrow> s
             | PollOk status res \<Rightarrow>
                 if status = ''completed'' \<and> res \<noteq> None then
                   (let s2 = stop_poll s
                    in s2\<lparr> result := res, showResults := True, isRunning := False,
                           taskIdRef := None,
                           agentLogs := agentLogs s2 @ [fallback_log now] \<rparr>)
                 else if status = ''error'' then
                   (stop_poll s)\<lparr> result := Some (case res of None \<Rightarrow> poll_failed_result
                                                    | Some r \<Rightarrow> r),
                                  showResults := True, isRunning := False, taskIdRef := None \<rparr>
                 else s)
          in if pollCount pc \<ge> maxPolls
             then (stop_poll s1)\<lparr> result := Some timeout_result, showResults := True,
                                   isRunning := False \<rparr>
             else s1)"

subsection \<open>Timers firing\<close>

text \<open>The browser runs the callback of a live timer; a timer set by \<^verbatim>\<open>setTimeout\<close> leaves
  the table as it fires, a cleared timer never fires. A poll callback runs to its
  \<^verbatim>\<open>await\<close>; its response is an event of its own.\<close>

definition fire :: "dashboard \<Rightarrow> timer_id \<Rightarrow> bool \<Rightarrow> dashboard" where
  "fire s i ok =
     (case find (\<lambda>t. t_id t = i) (timers s) of
        None \<Rightarrow> s
      | Some t \<Rightarrow>
          let s1 = (if t_repeat t then s else clearTimer s i)
          in (case t_cb t of
                ReconnectCb uid \<Rightarrow> reconnect_cb s1 uid ok
              | PingCb k \<Rightarrow> ping_cb s1 k
              | PollCb \<Rightarrow> fst (poll_begin s1 i)))"

text \<open>One whole tick of the poll timer \<open>c\<close>: the timer fires and the response \<open>resp\<close> is
  handled before anything else runs.\<close>

definition poll_tick :: "dashboard \<Rightarrow> timer_id \<Rightarrow> poll_response \<Rightarrow> string \<Rightarrow> dashboard" where
  "poll_tick s c resp now =
     (case find (\<lambda>t. t_id t = c) (timers s) of
        None \<Rightarrow> s
      | Some t \<Rightarrow>
          (case t_cb t of
             PollCb \<Rightarrow> (let (s1, sent) = poll_begin s c
                        in if sent then poll_resume s1 c resp now else s1)
           | _ \<Rightarrow> s))"

subsection \<open>handleStartTaskWithFiles\<close>

text \<open>What the handler closes over: the state variables of the render that created it.\<close>

record handler_closure =
  h_userId :: "jstring option"
  h_wsConnected :: bool
  h_showResults :: bool
  h_agentLogs :: "log_entry list"

definition render :: "dashboard \<Rightarrow> handler_closure" where
  "render s = \<lparr> h_userId = userId s, h_wsConnected = wsConnected s,
                h_showResults = showResults s, h_agentLogs = agentLogs s \<rparr>"

text \<open>The upload promise of one file: resolved with \<^verbatim>\<open>data.document.name\<close>, or rejected
  (transport error, a status outside 200..299, a body that does not parse or has no
  document name).\<close>

datatype upload_outcome = Uploaded string | UploadFailed

text \<open>\<^verbatim>\<open>xhr.upload.onprogress\<close> for a computable length: the percentage (rounded by the
  browser) is stored under the file's name.\<close>

definition upload_onprogress :: "dashboard \<Rightarrow> string \<Rightarrow> nat \<Rightarrow> dashboard" where
  "upload_onprogress s f pct =
     s\<lparr> uploadProgress := (f, pct) # filter (\<lambda>p. fst p \<noteq> f) (uploadProgress s) \<rparr>"

text \<open>The handler's entry: the description check, the resets, the token check. The flag
  says whether the handler goes on.\<close>

definition submit_begin :: "dashboard \<Rightarrow> jstring \<Rightarrow> string option \<Rightarrow> dashboard \<times> bool" where
  "submit_begin s taskText token =
     (if blank taskText then (emit s (Alert ''Please enter a task description''), False)
      else
        let s1 = s\<lparr> isRunning := True, showResults := False, result := None,
                    agentLogs := [], uploadProgress := [], taskIdRef := None \<rparr>
        in if \<not> truthy token then (emit s1 (RouterPush ''/login''), False)
           else (s1, True))"

text \<open>The loop \<^verbatim>\<open>for (const file of files)\<close>: each file is a name paired with what its
  upload will answer; \<open>up\<close> is \<^verbatim>\<open>uploadedFiles\<close>. \<open>None\<close> is the \<^verbatim>\<open>return\<close> of the
  inner \<^verbatim>\<open>catch\<close>.\<close>

fun upload_files ::
  "dashboard \<Rightarrow> (string \<times> upload_outcome) list \<Rightarrow> string list \<Rightarrow> dashboard \<times> string list option"
where
  "upload_files s [] up = (s, Some up)"
| "upload_files s ((f, oc) # rest) up =
     (let s1 = emit s (UploadReq f)
      in case oc of
           Uploaded n \<Rightarrow> upload_files s1 rest (up @ [n])
         | UploadFailed \<Rightarrow>
             ((emit s1 (Alert (''Failed to upload '' @ f)))\<lparr> isRunning := False \<rparr>, None))"

text \<open>From the end of the loop to the \<^verbatim>\<open>fetch\<close> of \<^verbatim>\<open>POST /api/tasks\<close>.\<close>

definition request_create ::
  "dashboard \<Rightarrow> handler_closure \<Rightarrow> jstring \<Rightarrow> string list \<Rightarrow> bool \<Rightarrow> dashboard" where
  "request_create s hc taskText up ok =
     (let s1 = s\<lparr> uploadProgress := [] \<rparr>;
          s2 = (case h_userId hc of
                  None \<Rightarrow> s1
                | Some u \<Rightarrow> if \<not> h_wsConnected hc \<and> u \<noteq> [] then setupWebSocket s1 u ok else s1)
      in emit s2 (CreateTaskReq taskText up))"

text \<open>The answer to \<^verbatim>\<open>POST /api/tasks\<close>: \<^verbatim>\<open>data.task._id\<close>, a response that is not
  \<^verbatim>\<open>ok\<close> with its \<^verbatim>\<open>detail\<close>, or a rejected \<^verbatim>\<open>fetch\<close> with its message.\<close>

datatype create_response = CreateOk string | CreateNotOk "string option" | CreateThrows "string option"

text \<open>The outer \<^verbatim>\<open>catch\<close>.\<close>

definition submit_catch :: "dashboard \<Rightarrow> string \<Rightarrow> dashboard" where
  "submit_catch s m = stop_poll ((emit s (Alert m))\<lparr> isRunning := False, agentLogs := [] \<rparr>)"

definition or_default :: "string option \<Rightarrow> string \<Rightarrow> string" where
  "or_default v d = (case v of None \<Rightarrow> d | Some t \<Rightarrow> if t = [] then d else t)"

text \<open>From the response of \<^verbatim>\<open>POST /api/tasks\<close> on: bind the task id and start polling.\<close>

definition task_created :: "dashboard \<Rightarrow> handler_closure \<Rightarrow> create_response \<Rightarrow> dashboard" where
  "task_created s hc resp =
     (case resp of
        CreateOk tid \<Rightarrow>
          (let s1 = s\<lparr> taskIdRef := Some tid \<rparr>
           in (setTimer s1 PollCb 3000 True)
                \<lparr> pollIntervalRef := Some (nextTimer s1),
                  closures := closures s1 @
                    [(nextTimer s1, \<lparr> pollCount = 0, newTaskId = tid,
                                      cap_showResults = h_showResults hc,
                                      cap_agentLogs = h_agentLogs hc \<rparr>)] \<rparr>)
      | CreateNotOk d \<Rightarrow>
          submit_catch s (or_default (Some (or_default d ''Failed to create task''))
                                     ''Failed to start task'')
      | CreateThrows m \<Rightarrow> submit_catch s (or_default m ''Failed to start task''))"

text \<open>The handler up to the \<^verbatim>\<open>fetch\<close> of \<^verbatim>\<open>POST /api/tasks\<close>; the flag says whether the
  request was issued.\<close>

definition start_request ::
  "dashboard \<Rightarrow> jstring \<Rightarrow> (string \<times> upload_outcome) list \<Rightarrow> string option \<Rightarrow> bool
     \<Rightarrow> dashboard \<times> bool" where
  "start_request s taskText files token ok =
     (let (s1, go) = submit_begin s taskText token
      in if \<not> go then (s1, False)
         else (case upload_files s1 files [] of
                 (s2, None) \<Rightarrow> (s2, False)
               | (s2, Some up) \<Rightarrow> (request_create s2 (render s) taskText up ok, True)))"

text \<open>The whole handler, when nothing else runs between its \<^verbatim>\<open>await\<close>s.\<close>

definition handleStartTaskWithFiles ::
  "dashboard \<Rightarrow> jstring \<Rightarrow> (string \<times> upload_outcome) list \<Rightarrow> string option \<Rightarrow> bool
     \<Rightarrow> create_response \<Rightarrow> dashboard" where
  "handleStartTaskWithFiles s taskText files token ok resp =
     (let (s1, sent) = start_request s taskText files token ok
      in if sent then task_created s1 (render s) resp else s1)"

subsection \<open>The start button of TaskInput\<close>

text \<open>\<^verbatim>\<open>disabled={!task.trim() || isRunning}\<close>: a click on the disabled button runs
  nothing; otherwise \<^verbatim>\<open>handleStart\<close> runs, which calls \<^verbatim>\<open>onStart(task, files)\<close> for a
  description that is not blank.\<close>

definition start_disabled :: "dashboard \<Rightarrow> jstring \<Rightarrow> bool" where
  "start_disabled s task = (blank task \<or> isRunning s)"

definition handleStart ::
  "dashboard \<Rightarrow> jstring \<Rightarrow> (string \<times> upload_outcome) list \<Rightarrow> string option \<Rightarrow> bool
     \<Rightarrow> dashboard \<times> bool" where
  "handleStart s task files token ok =
     (if blank task then (emit s (Alert ''Please enter a task description''), False)
      else start_request s task files token ok)"

definition start_click ::
  "dashboard \<Rightarrow> jstring \<Rightarrow> (string \<times> upload_outcome) list \<Rightarrow> string option \<Rightarrow> bool
     \<Rightarrow> dashboard \<times> bool" where
  "start_click s task files token ok =
     (if start_disabled s task then (s, False) else handleStart s task files token ok)"

subsection \<open>ResultsPanel\<close>

text \<open>What \<^verbatim>\<open>src/components/results-panel.tsx\<close> shows for the \<^verbatim>\<open>showResults\<close> and \<^verbatim>\<open>result\<close>
  the page passes to it: the placeholder "No Results Yet"; the panel headed "Task Failed"
  ("An error occurred during processing") with its error details; or the panel headed
  "Task Completed" with the summary, the insights and the recommendations. The failure
  panel is chosen by \<^verbatim>\<open>result?.status === 'error' || result?.error\<close> and shows
  \<^verbatim>\<open>result.error || result.message || 'Unknown error occurred'\<close>; only the other panel
  shows the summary, the insights and the recommendations. The counters and the time
  stamp a server's result may carry are not part of \<open>result_obj\<close>.\<close>

datatype panel = NoResultsYet | TaskFailed string | TaskCompleted string "string list" "string list"

definition ResultsPanel :: "bool \<Rightarrow> result_obj option \<Rightarrow> panel" where
  "ResultsPanel visible res =
     (if \<not> visible then NoResultsYet
      else case res of
        None \<Rightarrow> TaskCompleted ''The AI has completed processing your task.'' [] []
      | Some r \<Rightarrow>
          if r_status r = Some ''error'' \<or> truthy (r_error r)
          then TaskFailed (or_default (r_error r)
                 (or_default (r_message r) ''Unknown error occurred''))
          else TaskCompleted (or_default (r_summary r) ''The AI has completed processing your task.'')
                 (r_insights r) (r_recommendations r))"

text \<open>The page renders \<^verbatim>\<open><ResultsPanel showResults={showResults} result={result} />\<close>.\<close>

definition shown :: "dashboard \<Rightarrow> panel" where
  "shown s = ResultsPanel (showResults s) (result s)"

subsection \<open>The effect: fetchUser and the cleanup\<close>

datatype auth_outcome = NoToken | AuthFailed | AuthThrows | UserData "jstring option"

definition fetchUser :: "dashboard \<Rightarrow> auth_outcome \<Rightarrow> bool \<Rightarrow> dashboard" where
  "fetchUser s a ok =
     (case a of
        NoToken \<Rightarrow> emit s (RouterPush ''/login'')
      | AuthFailed \<Rightarrow> emit s (RouterPush ''/login'')
      | AuthThrows \<Rightarrow> emit s (RouterPush ''/login'')
      | UserData None \<Rightarrow>
          emit (emit s (Alert ''Failed to get user ID. Please login again.'')) (RouterPush ''/login'')
      | UserData (Some uid) \<Rightarrow>
          if invalid_uid uid
          then emit (emit s (Alert ''Failed to get user ID. Please login again.''))
                    (RouterPush ''/login'')
          else setupWebSocket (s\<lparr> userId := Some uid \<rparr>) uid ok)"

text \<open>The function the effect returns. It clears the three timers through their refs and
  closes the socket; the refs of the timers keep their ids.\<close>

definition cleanup :: "dashboard \<Rightarrow> dashboard" where
  "cleanup s =
     (let s1 = (case reconnectTimeoutRef s of None \<Rightarrow> s | Some r \<Rightarrow> clearTimer s r);
          s2 = (case pingIntervalRef s1 of None \<Rightarrow> s1 | Some p \<Rightarrow> clearTimer s1 p);
          s3 = (case pollIntervalRef s2 of None \<Rightarrow> s2 | Some p \<Rightarrow> clearTimer s2 p)
      in case wsRef s3 of None \<Rightarrow> s3 | Some k \<Rightarrow> (ws_close s3 k)\<lparr> wsRef := None \<rparr>)"

subsection \<open>Events\<close>

text \<open>The callbacks run one at a time, in any order the browser delivers them. An event
  names the callback and carries what the outside world supplies to it. A socket's
  handlers run only for a socket that \<^verbatim>\<open>setupWebSocket\<close> created: \<open>open\<close> while it is
  connecting, \<open>message\<close> while it is open or closing, \<open>close\<close> until it is closed. A
  click on the start button runs the handler up to its \<^verbatim>\<open>POST /api/tasks\<close>; the response
  resumes a handler with the closure of its render. A poll timer that fires runs its
  callback up to the \<^verbatim>\<open>fetch\<close>; the response resumes the callback.\<close>

datatype event =
    FetchUser auth_outcome bool
  | WsOpen sock_id
  | WsMessage sock_id frame
  | WsError sock_id
  | WsClose sock_id
  | Fire timer_id bool
  | PollResponse timer_id poll_response string
  | StartClick jstring "(string \<times> upload_outcome) list" "string option" bool
  | UploadProgress string nat
  | CreateResponse handler_closure create_response
  | Cleanup

fun step :: "dashboard \<Rightarrow> event \<Rightarrow> dashboard" where
  "step s (FetchUser a ok) = fetchUser s a ok"
| "step s (WsOpen k) =
     (if sockState s k = Some CONNECTING then ws_onopen (setReadyState s k OPEN) k else s)"
| "step s (WsMessage k fr) =
     (if sockState s k = Some OPEN \<or> sockState s k = Some CLOSING then ws_onmessage s fr else s)"
| "step s (WsError k) = (if sockState s k = None then s else ws_onerror s)"
| "step s (WsClose k) =
     (case map_of (sockets s) k of
        None \<Rightarrow> s
      | Some so \<Rightarrow>
          if readyState so = CLOSED then s
          else ws_onclose (setReadyState s k CLOSED) (ws_uid so))"
| "step s (Fire i ok) = fire s i ok"
| "step s (PollResponse c resp now) = poll_resume s c resp now"
| "step s (StartClick task files token ok) = fst (start_click s task files token ok)"
| "step s (UploadProgress f pct) = upload_onprogress s f pct"
| "step s (CreateResponse hc resp) = task_created s hc resp"
| "step s Cleanup = cleanup s"

definition run :: "dashboard \<Rightarrow> event list \<Rightarrow> dashboard" where
  "run s evs = foldl step s evs"

subsection \<open>Observations on a state\<close>

definition is_reconnect :: "timer_entry \<Rightarrow> bool" where
  "is_reconnect t = (case t_cb t of ReconnectCb uid \<Rightarrow> True | _ \<Rightarrow> False)"

text \<open>The reconnect timers that are pending, and the poll timers that are running.\<close>

definition pending_reconnects :: "dashboard \<Rightarrow> timer_entry list" where
  "pending_reconnects s = filter is_reconnect (timers s)"

definition poll_timers :: "dashboard \<Rightarrow> timer_entry list" where
  "poll_timers s = filter (\<lambda>t. t_cb t = PollCb) (timers s)"

definition live :: "dashboard \<Rightarrow> timer_id \<Rightarrow> bool" where
  "live s i = (i \<in> set (map t_id (timers s)))"

text \<open>The identities of the sockets created so far, in the order of creation.\<close>

definition identities :: "dashboard \<Rightarrow> jstring list" where
  "identities s = map (\<lambda>(k, so). ws_uid so) (sockets s)"

text \<open>A poll response on which the callback takes neither terminal branch.\<close>

definition nonterminal_response :: "poll_response \<Rightarrow> bool" where
  "nonterminal_response resp =
     (case resp of
        PollOk status res \<Rightarrow> \<not> (status = ''completed'' \<and> res \<noteq> None) \<and> status \<noteq> ''error''
      | _ \<Rightarrow> True)"

text \<open>Consecutive whole ticks of one poll timer, each with its response and clock.\<close>

definition poll_ticks :: "dashboard \<Rightarrow> timer_id \<Rightarrow> (poll_response \<times> string) list \<Rightarrow> dashboard" where
  "poll_ticks s c rs = foldl (\<lambda>st (resp, now). poll_tick st c resp now) s rs"

text \<open>The names \<^verbatim>\<open>uploadedFiles\<close> holds once every upload of the list has resolved.\<close>

definition uploaded_names :: "(string \<times> upload_outcome) list \<Rightarrow> string list" where
  "uploaded_names files =
     concat (map (\<lambda>p. case snd p of Uploaded n \<Rightarrow> [n] | UploadFailed \<Rightarrow> []) files)"

subsection \<open>Concrete sessions\<close>

text \<open>The user \<^verbatim>\<open>u1\<close> is authenticated and the push channel is open.\<close>

definition connected :: dashboard where
  "connected = run init [FetchUser (UserData (Some (js ''u1''))) True, WsOpen 0]"

text \<open>From there, a submission without files whose task is created as \<^verbatim>\<open>t1\<close>.\<close>

definition awaiting_t1 :: dashboard where
  "awaiting_t1 =
     handleStartTaskWithFiles connected (js ''report'') [] (Some ''tok'') True (CreateOk ''t1'')"

definition summary_result :: "string \<Rightarrow> result_obj" where
  "summary_result t =
     \<lparr> r_error = None, r_message = None, r_status = Some ''completed'', r_summary = Some t,
       r_insights = [], r_recommendations = [] \<rparr>"

definition completed_msg :: "string option \<Rightarrow> string \<Rightarrow> msg" where
  "completed_msg tid t =
     \<lparr> m_type = ''task_completed'', m_task_id = tid, m_log = None,
       m_result = Some (summary_result t), m_error = None \<rparr>"

definition error_msg :: "string option \<Rightarrow> string \<Rightarrow> msg" where
  "error_msg tid e =
     \<lparr> m_type = ''task_error'', m_task_id = tid, m_log = None,
       m_result = None, m_error = Some e \<rparr>"

definition log_msg :: "string option \<Rightarrow> string \<Rightarrow> msg" where
  "log_msg tid t =
     \<lparr> m_type = ''agent_log'', m_task_id = tid,
       m_log = Some \<lparr> agent = ''Planner'', action = ''step'', message = t, timestamp = ''12:00'' \<rparr>,
       m_result = None, m_error = None \<rparr>"

text \<open>Thirty poll responses, each reporting the task as running.\<close>

definition still_running :: "(poll_response \<times> string) list" where
  "still_running = replicate 30 (PollOk ''running'' None, ''12:00'')"

text \<open>Three files, the upload of the second of which fails.\<close>

definition three_files :: "(string \<times> upload_outcome) list" where
  "three_files = [(''a.csv'', Uploaded ''a.csv''), (''b.pdf'', UploadFailed), (''c.txt'', Uploaded ''c.txt'')]"

text \<open>The session awaiting \<^verbatim>\<open>t1\<close>, resolved by a poll that finds the task completed.\<close>

definition polled_done :: dashboard where
  "polled_done = poll_tick awaiting_t1 2 (PollOk ''completed'' (Some (summary_result ''done''))) ''12:01''"

text \<open>The same session, resolved by the push channel instead.\<close>

definition pushed_done :: dashboard where
  "pushed_done = ws_onmessage awaiting_t1 (Json (completed_msg (Some ''t1'') ''done''))"

text \<open>After that, the next submission, whose task is created as \<^verbatim>\<open>t2\<close>.\<close>

definition resubmitted :: dashboard where
  "resubmitted = handleStartTaskWithFiles pushed_done (js ''next'') [] (Some ''tok'') True (CreateOk ''t2'')"

text \<open>The connected page is unmounted and the socket it closed reports its close.\<close>

definition torn_down :: dashboard where
  "torn_down = run connected [Cleanup, WsClose 0]"

text \<open>A submission during whose \<^verbatim>\<open>POST /api/tasks\<close> the completion of an earlier task
  \<^verbatim>\<open>t0\<close> is pushed; then the task is created as \<^verbatim>\<open>t1\<close>.\<close>

definition early_completion :: "event list" where
  "early_completion =
     [StartClick (js ''first'') [] (Some ''tok'') True,
      WsMessage 0 (Json (completed_msg (Some ''t0'') ''earlier task'')),
      CreateResponse (render connected) (CreateOk ''t1'')]"

text \<open>The button is enabled again, so a second submission follows while the first poll
  timer runs; its handler closes over the render that shows the earlier result.\<close>

definition double_start :: "event list" where
  "double_start =
     early_completion @
     [StartClick (js ''second'') [] (Some ''tok'') True,
      CreateResponse \<lparr> h_userId = Some (js ''u1''), h_wsConnected = True, h_showResults = True,
                        h_agentLogs = [] \<rparr> (CreateOk ''t2'')]"

text \<open>The session awaiting \<^verbatim>\<open>t1\<close> after \<open>n\<close> whole polls that found the task running.\<close>

definition polled :: "nat \<Rightarrow> dashboard" where
  "polled n =
     awaiting_t1\<lparr> closures := [(2, \<lparr> pollCount = n, newTaskId = ''t1'', cap_showResults = False,
                                      cap_agentLogs = [] \<rparr>)],
                  outbox := CreateTaskReq (js ''report'') [] # replicate n (GetTaskReq ''t1'') \<rparr>"

text \<open>After \<open>double_start\<close>, the first poll timer (no longer held by \<^verbatim>\<open>pollIntervalRef\<close>)
  after \<open>n\<close> whole polls that found the task running.\<close>

definition orphan_polled :: "nat \<Rightarrow> dashboard" where
  "orphan_polled n =
     (run connected double_start)
       \<lparr> closures := [(2, \<lparr> pollCount = n, newTaskId = ''t1'', cap_showResults = False,
                               cap_agentLogs = [] \<rparr>),
                        (3, \<lparr> pollCount = 0, newTaskId = ''t2'', cap_showResults = True,
                               cap_agentLogs = [] \<rparr>)],
         outbox := [CreateTaskReq (js ''first'') [], CreateTaskReq (js ''second'') []] @
                   replicate n (GetTaskReq ''t1'') \<rparr>"

text \<open>Two ticks fire before the response to the first of them arrives; the completion of
  \<^verbatim>\<open>t1\<close> is pushed between the two responses.\<close>

definition late_responses :: "event list" where
  "late_responses =
     [Fire 2 True, Fire 2 True,
      PollResponse 2 (PollOk ''running'' None) ''12:02'',
      WsMessage 0 (Json (completed_msg (Some ''t1'') ''done'')),
      PollResponse 2 (PollOk ''running'' None) ''12:03'']"

text \<open>What a terminal push frame stores in \<^verbatim>\<open>result\<close>, and what a terminal poll response
  stores.\<close>

definition push_result :: "msg \<Rightarrow> result_obj option" where
  "push_result m =
     (if m_type m = ''task_completed'' then m_result m
      else Some (push_error_result (m_error m)))"

definition poll_result :: "poll_response \<Rightarrow> result_obj option" where
  "poll_result resp =
     (case resp of
        PollOk status res \<Rightarrow>
          if status = ''completed'' \<and> res \<noteq> None then res
          else Some (case res of None \<Rightarrow> poll_failed_result | Some r \<Rightarrow> r)
      | _ \<Rightarrow> None)"

text \<open>The user \<^verbatim>\<open>u1\<close> connects and the push channel then closes.\<close>

definition lost_connection :: "event list" where
  "lost_connection = [FetchUser (UserData (Some (js ''u1''))) True, WsOpen 0, WsClose 0]"

subsection \<open>The invariant of the reconnect timer\<close>

text \<open>Timer ids are distinct and below the next id; every pending reconnect timer is the
  one \<^verbatim>\<open>reconnectTimeoutRef\<close> holds, is not the one \<^verbatim>\<open>pingIntervalRef\<close> holds, and was
  set by \<^verbatim>\<open>setTimeout\<close> with 3000 ms.\<close>

definition timers_ok :: "dashboard \<Rightarrow> bool" where
  "timers_ok s \<longleftrightarrow>
     distinct (map t_id (timers s)) \<and>
     (\<forall>t\<in>set (timers s). t_id t < nextTimer s) \<and>
     (\<forall>t\<in>set (timers s). is_reconnect t \<longrightarrow>
        reconnectTimeoutRef s = Some (t_id t) \<and> pingIntervalRef s \<noteq> Some (t_id t) \<and>
        t_delay t = 3000 \<and> \<not> t_repeat t)"

section \<open>Evaluation of the concrete sessions\<close>

lemmas handler_defs =
  js_def fetchUser_def setupWebSocket_def invalid_uid_def blank_def js_space_def
  sockState_def setReadyState_def ws_close_def ws_onopen_def ws_onclose_def ws_onerror_def
  ws_onmessage_def filtered_def stop_poll_def push_error_result_def
  reconnect_cb_def ping_cb_def setTimer_def clearTimer_def emit_def truthy_def
  start_click_def start_disabled_def handleStart_def start_request_def submit_begin_def
  request_create_def render_def task_created_def submit_catch_def or_default_def
  handleStartTaskWithFiles_def cleanup_def fire_def poll_begin_def poll_resume_def
  poll_tick_def set_closure_def maxPolls_def

lemma connected_eq:
  "connected =
     \<lparr> isRunning = False, showResults = False, result = None, userId = Some (js ''u1''),
       wsRef = Some 0, taskIdRef = None, uploadProgress = [], agentLogs = [],
       reconnectTimeoutRef = None, wsConnected = True, pingIntervalRef = Some 1,
       pollIntervalRef = None,
       timers = [\<lparr> t_id = 1, t_cb = PingCb 0, t_delay = 30000, t_repeat = True \<rparr>],
       nextTimer = 2, sockets = [(0, \<lparr> ws_uid = js ''u1'', readyState = OPEN \<rparr>)],
       nextSock = 1, closures = [], outbox = [] \<rparr>"
  by (simp add: connected_def init_def run_def handler_defs)

lemma awaiting_t1_eq:
  "awaiting_t1 =
     \<lparr> isRunning = True, showResults = False, result = None, userId = Some (js ''u1''),
       wsRef = Some 0, taskIdRef = Some ''t1'', uploadProgress = [], agentLogs = [],
       reconnectTimeoutRef = None, wsConnected = True, pingIntervalRef = Some 1,
       pollIntervalRef = Some 2,
       timers = [\<lparr> t_id = 1, t_cb = PingCb 0, t_delay = 30000, t_repeat = True \<rparr>,
                 \<lparr> t_id = 2, t_cb = PollCb, t_delay = 3000, t_repeat = True \<rparr>],
       nextTimer = 3, sockets = [(0, \<lparr> ws_uid = js ''u1'', readyState = OPEN \<rparr>)],
       nextSock = 1,
       closures = [(2, \<lparr> pollCount = 0, newTaskId = ''t1'', cap_showResults = False,
                          cap_agentLogs = [] \<rparr>)],
       outbox = [CreateTaskReq (js ''report'') []] \<rparr>"
  by (simp add: awaiting_t1_def connected_eq handler_defs)

lemma polled_done_eq:
  "polled_done =
     \<lparr> isRunning = False, showResults = True, result = Some (summary_result ''done''),
       userId = Some (js ''u1''), wsRef = Some 0, taskIdRef = None, uploadProgress = [],
       agentLogs = [fallback_log ''12:01''],
       reconnectTimeoutRef = None, wsConnected = True, pingIntervalRef = Some 1,
       pollIntervalRef = None,
       timers = [\<lparr> t_id = 1, t_cb = PingCb 0, t_delay = 30000, t_repeat = True \<rparr>],
       nextTimer = 3, sockets = [(0, \<lparr> ws_uid = js ''u1'', readyState = OPEN \<rparr>)],
       nextSock = 1,
       closures = [(2, \<lparr> pollCount = 1, newTaskId = ''t1'', cap_showResults = False,
                          cap_agentLogs = [] \<rparr>)],
       outbox = [CreateTaskReq (js ''report'') [], GetTaskReq ''t1''] \<rparr>"
  by (simp add: polled_done_def awaiting_t1_eq handler_defs)

lemma pushed_done_eq:
  "pushed_done =
     \<lparr> isRunning = False, showResults = True, result = Some (summary_result ''done''),
       userId = Some (js ''u1''), wsRef = Some 0, taskIdRef = None, uploadProgress = [],
       agentLogs = [],
       reconnectTimeoutRef = None, wsConnected = True, pingIntervalRef = Some 1,
       pollIntervalRef = None,
       timers = [\<lparr> t_id = 1, t_cb = PingCb 0, t_delay = 30000, t_repeat = True \<rparr>],
       nextTimer = 3, sockets = [(0, \<lparr> ws_uid = js ''u1'', readyState = OPEN \<rparr>)],
       nextSock = 1,
       closures = [(2, \<lparr> pollCount = 0, newTaskId = ''t1'', cap_showResults = False,
                          cap_agentLogs = [] \<rparr>)],
       outbox = [CreateTaskReq (js ''report'') []] \<rparr>"
  by (simp add: pushed_done_def awaiting_t1_eq completed_msg_def handler_defs)

lemma resubmitted_eq:
  "resubmitted =
     \<lparr> isRunning = True, showResults = False, result = None,
       userId = Some (js ''u1''), wsRef = Some 0, taskIdRef = Some ''t2'', uploadProgress = [],
       agentLogs = [],
       reconnectTimeoutRef = None, wsConnected = True, pingIntervalRef = Some 1,
       pollIntervalRef = Some 3,
       timers = [\<lparr> t_id = 1, t_cb = PingCb 0, t_delay = 30000, t_repeat = True \<rparr>,
                 \<lparr> t_id = 3, t_cb = PollCb, t_delay = 3000, t_repeat = True \<rparr>],
       nextTimer = 4, sockets = [(0, \<lparr> ws_uid = js ''u1'', readyState = OPEN \<rparr>)],
       nextSock = 1,
       closures = [(2, \<lparr> pollCount = 0, newTaskId = ''t1'', cap_showResults = False,
                          cap_agentLogs = [] \<rparr>),
                   (3, \<lparr> pollCount = 0, newTaskId = ''t2'', cap_showResults = True,
                          cap_agentLogs = [] \<rparr>)],
       outbox = [CreateTaskReq (js ''report'') [], CreateTaskReq (js ''next'') []] \<rparr>"
  by (simp add: resubmitted_def pushed_done_eq handler_defs)

lemma torn_down_eq:
  "torn_down =
     \<lparr> isRunning = False, showResults = False, result = None, userId = Some (js ''u1''),
       wsRef = None, taskIdRef = None, uploadProgress = [], agentLogs = [],
       reconnectTimeoutRef = Some 2, wsConnected = False, pingIntervalRef = None,
       pollIntervalRef = None,
       timers = [\<lparr> t_id = 2, t_cb = ReconnectCb (js ''u1''), t_delay = 3000, t_repeat = False \<rparr>],
       nextTimer = 3, sockets = [(0, \<lparr> ws_uid = js ''u1'', readyState = CLOSED \<rparr>)],
       nextSock = 1, closures = [], outbox = [] \<rparr>"
  by (simp add: torn_down_def connected_eq run_def handler_defs)

lemma early_completion_eq:
  "run connected early_completion =
     \<lparr> isRunning = False, showResults = True, result = Some (summary_result ''earlier task''),
       userId = Some (js ''u1''), wsRef = Some 0, taskIdRef = Some ''t1'', uploadProgress = [],
       agentLogs = [],
       reconnectTimeoutRef = None, wsConnected = True, pingIntervalRef = Some 1,
       pollIntervalRef = Some 2,
       timers = [\<lparr> t_id = 1, t_cb = PingCb 0, t_delay = 30000, t_repeat = True \<rparr>,
                 \<lparr> t_id = 2, t_cb = PollCb, t_delay = 3000, t_repeat = True \<rparr>],
       nextTimer = 3, sockets = [(0, \<lparr> ws_uid = js ''u1'', readyState = OPEN \<rparr>)],
       nextSock = 1,
       closures = [(2, \<lparr> pollCount = 0, newTaskId = ''t1'', cap_showResults = False,
                          cap_agentLogs = [] \<rparr>)],
       outbox = [CreateTaskReq (js ''first'') []] \<rparr>"
  by (simp add: early_completion_def connected_eq completed_msg_def run_def handler_defs)

lemma run_append: "run s (xs @ ys) = run (run s xs) ys"
  by (simp add: run_def)

lemma double_start_eq:
  "run connected double_start =
     \<lparr> isRunning = True, showResults = False, result = None,
       userId = Some (js ''u1''), wsRef = Some 0, taskIdRef = Some ''t2'', uploadProgress = [],
       agentLogs = [],
       reconnectTimeoutRef = None, wsConnected = True, pingIntervalRef = Some 1,
       pollIntervalRef = Some 3,
       timers = [\<lparr> t_id = 1, t_cb = PingCb 0, t_delay = 30000, t_repeat = True \<rparr>,
                 \<lparr> t_id = 2, t_cb = PollCb, t_delay = 3000, t_repeat = True \<rparr>,
                 \<lparr> t_id = 3, t_cb = PollCb, t_delay = 3000, t_repeat = True \<rparr>],
       nextTimer = 4, sockets = [(0, \<lparr> ws_uid = js ''u1'', readyState = OPEN \<rparr>)],
       nextSock = 1,
       closures = [(2, \<lparr> pollCount = 0, newTaskId = ''t1'', cap_showResults = False,
                          cap_agentLogs = [] \<rparr>),
                   (3, \<lparr> pollCount = 0, newTaskId = ''t2'', cap_showResults = True,
                          cap_agentLogs = [] \<rparr>)],
       outbox = [CreateTaskReq (js ''first'') [], CreateTaskReq (js ''second'') []] \<rparr>"
  unfolding double_start_def run_append early_completion_eq
  by (simp add: run_def handler_defs)

section \<open>Lemmas on lists and on the poll timer\<close>

lemma find_SomeD: "find P xs = Some x \<Longrightarrow> x \<in> set xs \<and> P x"
  by (induction xs) (auto split: if_splits)

lemma find_distinct:
  "x \<in> set xs \<Longrightarrow> distinct (map f xs) \<Longrightarrow> find (\<lambda>u. f u = f x) xs = Some x"
  by (induction xs) (auto simp: rev_image_eqI)

lemma find_filter_out: "find (\<lambda>t. f t = c) (filter (\<lambda>t. f t \<noteq> c) ts) = None"
  by (induction ts) auto

lemma map_of_set_closure:
  "map_of cl c = Some q \<Longrightarrow>
   map_of (map (\<lambda>(i, q). if i = c then (i, pc) else (i, q)) cl) c = Some pc"
  by (induction cl) (auto split: if_splits)

lemma replicate_30: "replicate 30 x = replicate 29 x @ [x]"
  by (simp add: numeral_eq_Suc)

lemma live_find: "find (\<lambda>t. t_id t = c) (timers s) = Some t \<Longrightarrow> live s c"
  by (auto simp: live_def dest!: find_SomeD)

lemma stop_poll_cancels:
  assumes "pollIntervalRef s = Some c"
  shows "pollIntervalRef (stop_poll s) = None \<and> \<not> live (stop_poll s) c \<and>
         find (\<lambda>t. t_id t = c) (timers (stop_poll s)) = None"
  using assms by (auto simp: stop_poll_def clearTimer_def live_def find_filter_out)

lemma stop_poll_fields:
  "result (stop_poll s) = result s" "showResults (stop_poll s) = showResults s"
  "isRunning (stop_poll s) = isRunning s" "taskIdRef (stop_poll s) = taskIdRef s"
  "agentLogs (stop_poll s) = agentLogs s" "pollIntervalRef (stop_poll s) = None"
  "outbox (stop_poll s) = outbox s" "closures (stop_poll s) = closures s"
  by (simp_all add: stop_poll_def clearTimer_def split: option.splits)

section \<open>The reconnect timer (C3)\<close>

lemma timers_ok_init: "timers_ok init"
  by (simp add: timers_ok_def init_def)

lemma timers_ok_cong:
  "timers s' = timers s \<Longrightarrow> nextTimer s' = nextTimer s \<Longrightarrow>
   reconnectTimeoutRef s' = reconnectTimeoutRef s \<Longrightarrow>
   pingIntervalRef s' = pingIntervalRef s \<Longrightarrow> timers_ok s' = timers_ok s"
  by (simp add: timers_ok_def)

lemma timers_ok_clearTimer: "timers_ok s \<Longrightarrow> timers_ok (clearTimer s i)"
  by (auto simp: timers_ok_def clearTimer_def distinct_map_filter)

lemma setupWebSocket_frame:
  "timers (setupWebSocket s uid ok) = timers s"
  "nextTimer (setupWebSocket s uid ok) = nextTimer s"
  "reconnectTimeoutRef (setupWebSocket s uid ok) = reconnectTimeoutRef s"
  "pingIntervalRef (setupWebSocket s uid ok) = pingIntervalRef s"
  by (simp_all add: setupWebSocket_def ws_close_def setReadyState_def Let_def split: option.splits)

lemma timers_ok_setupWebSocket: "timers_ok (setupWebSocket s uid ok) = timers_ok s"
  by (rule timers_ok_cong) (simp_all add: setupWebSocket_frame)

lemma timers_ok_stop_poll: "timers_ok s \<Longrightarrow> timers_ok (stop_poll s)"
  by (auto simp: stop_poll_def timers_ok_def clearTimer_def distinct_map_filter split: option.splits)

lemma timers_ok_emit: "timers_ok (emit s e) = timers_ok s"
  by (simp add: timers_ok_def emit_def)

lemma timers_ok_fetchUser: "timers_ok s \<Longrightarrow> timers_ok (fetchUser s a ok)"
  by (auto simp: fetchUser_def timers_ok_emit timers_ok_setupWebSocket timers_ok_def[of "s\<lparr>userId := _\<rparr>"] timers_ok_def[of s] split: auth_outcome.splits option.splits)

lemma timers_ok_onmessage: "timers_ok s \<Longrightarrow> timers_ok (ws_onmessage s fr)"
  by (auto simp: ws_onmessage_def  timers_ok_def stop_poll_def clearTimer_def distinct_map_filter split: frame.splits option.splits)

lemma timers_ok_onopen: "timers_ok s \<Longrightarrow> timers_ok (ws_onopen s k)"
  by (auto simp: ws_onopen_def timers_ok_def setTimer_def clearTimer_def distinct_map_filter is_reconnect_def Let_def split: option.splits)

lemma timers_ok_onclose: "timers_ok s \<Longrightarrow> timers_ok (ws_onclose s uid)"
  by (auto simp: ws_onclose_def timers_ok_def setTimer_def clearTimer_def distinct_map_filter is_reconnect_def Let_def split: option.splits)

lemma timers_ok_setReadyState: "timers_ok (setReadyState s k r) = timers_ok s"
  by (simp add: timers_ok_def setReadyState_def)


lemma timers_ok_ref_None:
  "timers_ok s \<Longrightarrow> \<forall>t\<in>set (timers s). \<not> is_reconnect t \<Longrightarrow> timers_ok (s\<lparr> reconnectTimeoutRef := r \<rparr>)"
  by (simp add: timers_ok_def)

lemma timers_ok_reconnect_cb:
  assumes "timers_ok s" and "t \<in> set (timers s)" and "t_id t = i" and "t_cb t = ReconnectCb uid"
  shows "timers_ok (reconnect_cb (clearTimer s i) uid ok)"
proof -
  have r: "is_reconnect t" using assms(4) by (simp add: is_reconnect_def)
  have ref: "reconnectTimeoutRef s = Some i" using assms r by (auto simp: timers_ok_def)
  have none: "\<forall>u\<in>set (timers (clearTimer s i)). \<not> is_reconnect u"
    using assms(1) ref by (auto simp: timers_ok_def clearTimer_def)
  show ?thesis
    unfolding reconnect_cb_def timers_ok_setupWebSocket
    by (rule timers_ok_ref_None [OF timers_ok_clearTimer [OF assms(1)] none])
qed

lemma timers_ok_ping_cb: "timers_ok (ping_cb s k) = timers_ok s"
  by (simp add: ping_cb_def timers_ok_emit)

lemma timers_ok_set_closure: "timers_ok (set_closure s c pc) = timers_ok s"
  by (simp add: set_closure_def timers_ok_def)

lemma timers_ok_poll_begin: "timers_ok s \<Longrightarrow> timers_ok (fst (poll_begin s c))"
  by (simp add: poll_begin_def Let_def timers_ok_emit timers_ok_set_closure timers_ok_stop_poll
           split: option.splits)

lemma timers_ok_fire:
  assumes "timers_ok s"
  shows "timers_ok (fire s i ok)"
proof (cases "find (\<lambda>t. t_id t = i) (timers s)")
  case None
  then show ?thesis using assms by (simp add: fire_def)
next
  case (Some t)
  then have mem: "t \<in> set (timers s)" and tid: "t_id t = i"
    by (auto dest: find_SomeD)
  show ?thesis
  proof (cases "t_cb t")
    case (ReconnectCb uid)
    then have "is_reconnect t" by (simp add: is_reconnect_def)
    then have "\<not> t_repeat t" using assms mem by (auto simp: timers_ok_def)
    then show ?thesis
      using Some ReconnectCb timers_ok_reconnect_cb [OF assms mem tid ReconnectCb]
      by (simp add: fire_def)
  next
    case (PingCb k)
    then show ?thesis
      using Some assms by (simp add: fire_def timers_ok_ping_cb timers_ok_clearTimer)
  next
    case PollCb
    then show ?thesis
      using Some assms by (simp add: fire_def timers_ok_poll_begin timers_ok_clearTimer)
  qed
qed

lemma timers_ok_flags:
  "timers_ok (s\<lparr> result := a, showResults := b, isRunning := c \<rparr>) = timers_ok s"
  "timers_ok (s\<lparr> result := a, showResults := b, isRunning := c, taskIdRef := d \<rparr>) = timers_ok s"
  "timers_ok (s\<lparr> result := a, showResults := b, isRunning := c, taskIdRef := d, agentLogs := e \<rparr>) = timers_ok s"
  by (simp_all add: timers_ok_def)

lemma timers_ok_poll_resume: "timers_ok s \<Longrightarrow> timers_ok (poll_resume s c resp now)"
  by (simp add: poll_resume_def Let_def timers_ok_flags timers_ok_stop_poll
           split: option.splits poll_response.splits)

lemma timers_ok_upload_files: "timers_ok s \<Longrightarrow> timers_ok (fst (upload_files s files up))"
proof (induction files arbitrary: s up)
  case Nil
  then show ?case by simp
next
  case (Cons p files)
  obtain f oc where p: "p = (f, oc)" by (cases p)
  show ?case
  proof (cases oc)
    case (Uploaded n)
    then show ?thesis using Cons p by (simp add: timers_ok_emit)
  next
    case UploadFailed
    then show ?thesis using Cons.prems p by (simp add: timers_ok_def emit_def)
  qed
qed

lemma timers_ok_submit_begin: "timers_ok s \<Longrightarrow> timers_ok (fst (submit_begin s task token))"
  by (simp add: submit_begin_def Let_def timers_ok_def emit_def)

lemma timers_ok_request_create: "timers_ok s \<Longrightarrow> timers_ok (request_create s hc task up ok)"
  by (simp add: request_create_def Let_def timers_ok_emit timers_ok_setupWebSocket
        timers_ok_def[of "s\<lparr>uploadProgress := []\<rparr>"] timers_ok_def[of s] split: option.splits)

lemma timers_ok_start_request: "timers_ok s \<Longrightarrow> timers_ok (fst (start_request s task files token ok))"
proof -
  assume a: "timers_ok s"
  obtain s1 go where b: "submit_begin s task token = (s1, go)" by (cases "submit_begin s task token")
  have s1: "timers_ok s1" using timers_ok_submit_begin [OF a, of task token] b by simp
  obtain s2 r where u: "upload_files s1 files [] = (s2, r)" by (cases "upload_files s1 files []")
  have s2: "timers_ok s2" using timers_ok_upload_files [OF s1, of files "[]"] u by simp
  show ?thesis
    using b u s1 s2 by (simp add: start_request_def timers_ok_request_create split: option.splits)
qed

lemma timers_ok_start_click: "timers_ok s \<Longrightarrow> timers_ok (fst (start_click s task files token ok))"
  by (simp add: start_click_def handleStart_def timers_ok_start_request timers_ok_emit)

lemma timers_ok_submit_catch: "timers_ok s \<Longrightarrow> timers_ok (submit_catch s m)"
  by (auto simp: submit_catch_def stop_poll_def timers_ok_def clearTimer_def emit_def distinct_map_filter split: option.splits)

lemma timers_ok_task_created:
  assumes "timers_ok s"
  shows "timers_ok (task_created s hc resp)"
proof (cases resp)
  case (CreateOk tid)
  then show ?thesis
    using assms by (auto simp: task_created_def Let_def timers_ok_def setTimer_def is_reconnect_def)
next
  case (CreateNotOk d)
  then show ?thesis using assms by (simp add: task_created_def timers_ok_submit_catch)
next
  case (CreateThrows m)
  then show ?thesis using assms by (simp add: task_created_def timers_ok_submit_catch)
qed

lemma timers_ok_upload_onprogress: "timers_ok (upload_onprogress s f pct) = timers_ok s"
  by (simp add: timers_ok_def upload_onprogress_def)

lemma timers_ok_step: "timers_ok s \<Longrightarrow> e \<noteq> Cleanup \<Longrightarrow> timers_ok (step s e)"
  by (cases e)
     (simp_all add: timers_ok_fetchUser timers_ok_onopen timers_ok_setReadyState timers_ok_onmessage
        timers_ok_onclose timers_ok_fire timers_ok_poll_resume timers_ok_start_click
        timers_ok_upload_onprogress
        timers_ok_task_created ws_onerror_def timers_ok_def[of "s\<lparr>wsConnected := False\<rparr>"] timers_ok_def[of s]
        split: option.splits)

lemma timers_ok_run: "timers_ok s \<Longrightarrow> Cleanup \<notin> set evs \<Longrightarrow> timers_ok (run s evs)"
  unfolding run_def
  by (induction evs arbitrary: s) (auto simp: timers_ok_step)

lemma same_id_short:
  "distinct (map f xs) \<Longrightarrow> \<forall>x\<in>set xs. f x = a \<Longrightarrow> length xs \<le> 1"
  by (cases xs rule: list.exhaust; cases "tl xs") auto

lemma timers_ok_at_most_one:
  assumes "timers_ok s"
  shows "length (pending_reconnects s) \<le> 1"
proof (cases "pending_reconnects s")
  case Nil
  then show ?thesis by simp
next
  case (Cons t ts)
  have d: "distinct (map t_id (pending_reconnects s))"
    using assms by (simp add: timers_ok_def pending_reconnects_def distinct_map_filter)
  have "\<forall>u\<in>set (pending_reconnects s). Some (t_id u) = reconnectTimeoutRef s"
    using assms by (auto simp: timers_ok_def pending_reconnects_def)
  then have "\<forall>u\<in>set (pending_reconnects s). t_id u = the (reconnectTimeoutRef s)"
    by (metis option.sel)
  then show ?thesis using same_id_short [OF d] by blast
qed


lemma identities_setReadyState: "identities (setReadyState s k r) = identities s"
  by (simp add: identities_def setReadyState_def case_prod_beta)

lemma identities_ws_close: "identities (ws_close s k) = identities s"
  by (simp add: ws_close_def identities_setReadyState)

lemma identities_setupWebSocket:
  "identities (setupWebSocket s uid ok) = identities s \<or>
   identities (setupWebSocket s uid ok) = identities s @ [uid]"
proof (cases "wsRef s")
  case None
  then show ?thesis by (simp add: setupWebSocket_def identities_def)
next
  case (Some j)
  have "map (\<lambda>(k, so). ws_uid so) (sockets (ws_close s j)) = map (\<lambda>(k, so). ws_uid so) (sockets s)"
    using identities_ws_close [of s j] by (simp add: identities_def)
  then show ?thesis using Some by (simp add: setupWebSocket_def identities_def Let_def)
qed

lemma pending_onclose_busy:
  assumes "timers_ok s" and "pending_reconnects s \<noteq> []"
  shows "pending_reconnects (ws_onclose (setReadyState s k r) uid) = pending_reconnects s"
proof -
  obtain t where t: "t \<in> set (timers s)" "is_reconnect t"
    using assms(2) by (auto simp: pending_reconnects_def filter_empty_conv)
  then have ref: "reconnectTimeoutRef s = Some (t_id t)"
    using assms(1) by (simp add: timers_ok_def)
  have ping: "\<forall>u\<in>set (timers s). is_reconnect u \<longrightarrow> pingIntervalRef s \<noteq> Some (t_id u)"
    using assms(1) by (simp add: timers_ok_def)
  have keep: "filter is_reconnect (filter (\<lambda>u. t_id u \<noteq> p) (timers s)) = filter is_reconnect (timers s)"
    if "pingIntervalRef s = Some p" for p
    using ping that by (auto intro: filter_cong)
  show ?thesis
    using ref keep
    by (simp add: ws_onclose_def Let_def setReadyState_def pending_reconnects_def clearTimer_def
             split: option.splits)
qed

lemma onclose_pending:
  "set (pending_reconnects (ws_onclose s uid)) \<subseteq>
     set (pending_reconnects s) \<union> {t. t_cb t = ReconnectCb uid \<and> t_delay t = 3000 \<and> \<not> t_repeat t}"
  by (auto simp: ws_onclose_def Let_def pending_reconnects_def setTimer_def clearTimer_def
           split: option.splits if_splits)


lemma step_close_busy:
  assumes "timers_ok s" and "pending_reconnects s \<noteq> []"
  shows "pending_reconnects (step s (WsClose k)) = pending_reconnects s"
  using pending_onclose_busy [OF assms] by (simp split: option.splits)

lemma step_close_identity:
  assumes "map_of (sockets s) k = Some so"
    and "t \<in> set (pending_reconnects (step s (WsClose k)))"
  shows "t \<in> set (pending_reconnects s) \<or> t_cb t = ReconnectCb (ws_uid so)"
proof (cases "readyState so = CLOSED")
  case True
  then show ?thesis using assms by simp
next
  case False
  have "pending_reconnects (setReadyState s k CLOSED) = pending_reconnects s"
    by (simp add: pending_reconnects_def setReadyState_def)
  then show ?thesis
    using assms False onclose_pending [of "setReadyState s k CLOSED" "ws_uid so"] by auto
qed

lemma fire_reconnect:
  assumes "timers_ok s" and "t \<in> set (pending_reconnects s)" and "t_cb t = ReconnectCb uid"
  shows "fire s (t_id t) ok = reconnect_cb (clearTimer s (t_id t)) uid ok"
proof -
  have mem: "t \<in> set (timers s)" and rec: "is_reconnect t"
    using assms(2) by (auto simp: pending_reconnects_def)
  have d: "distinct (map t_id (timers s))" using assms(1) by (simp add: timers_ok_def)
  have nr: "\<not> t_repeat t" using assms(1) mem rec by (simp add: timers_ok_def)
  have "find (\<lambda>u. t_id u = t_id t) (timers s) = Some t"
    by (rule find_distinct [OF mem d])
  then show ?thesis using nr assms(3) by (simp add: fire_def)
qed


lemma pending_after_fire:
  assumes "timers_ok s" and "t \<in> set (pending_reconnects s)" and "t_cb t = ReconnectCb uid"
  shows "pending_reconnects (fire s (t_id t) ok) = []"
proof -
  have mem: "t \<in> set (timers s)" and rec: "is_reconnect t"
    using assms(2) by (auto simp: pending_reconnects_def)
  have "\<forall>u\<in>set (timers s). is_reconnect u \<longrightarrow> reconnectTimeoutRef s = Some (t_id u)"
    using assms(1) by (simp add: timers_ok_def)
  then have "\<forall>u\<in>set (timers s). is_reconnect u \<longrightarrow> t_id u = t_id t"
    using mem rec by (metis option.inject)
  then have "filter is_reconnect (filter (\<lambda>u. t_id u \<noteq> t_id t) (timers s)) = []"
    by (auto simp: filter_empty_conv)
  then show ?thesis
    unfolding fire_reconnect [OF assms]
    by (simp add: reconnect_cb_def pending_reconnects_def setupWebSocket_frame clearTimer_def)
qed

lemma identities_after_fire:
  assumes "timers_ok s" and "t \<in> set (pending_reconnects s)" and "t_cb t = ReconnectCb uid"
  shows "identities (fire s (t_id t) ok) = identities s \<or>
         identities (fire s (t_id t) ok) = identities s @ [uid]"
proof -
  have "identities (clearTimer s (t_id t)\<lparr> reconnectTimeoutRef := None \<rparr>) = identities s"
    by (simp add: identities_def clearTimer_def)
  then show ?thesis
    unfolding fire_reconnect [OF assms] reconnect_cb_def
    using identities_setupWebSocket [of "clearTimer s (t_id t)\<lparr> reconnectTimeoutRef := None \<rparr>" uid ok]
    by simp
qed

text \<open>
  Claim C3. For any sequence of events that contains no teardown (so for any sequence of
  close events of the push channel): at most one reconnect timer is pending; every
  pending reconnect timer is a one-shot timer of 3000 ms; a close while a reconnect timer
  is pending leaves the pending reconnect timers as they are; a reconnect timer that a
  close schedules carries the identity of the socket that closed; and when the timer
  fires no reconnect timer is pending and \<^verbatim>\<open>setupWebSocket\<close> either opens no socket or
  opens one with that same identity.
\<close>

theorem reconnect_timer_unique:
  assumes "Cleanup \<notin> set evs"
  shows "length (pending_reconnects (run init evs)) \<le> 1 \<and>
         (\<forall>t\<in>set (pending_reconnects (run init evs)). t_delay t = 3000 \<and> \<not> t_repeat t) \<and>
         (pending_reconnects (run init evs) \<noteq> [] \<longrightarrow>
            pending_reconnects (step (run init evs) (WsClose k)) = pending_reconnects (run init evs)) \<and>
         (\<forall>so. map_of (sockets (run init evs)) k = Some so \<longrightarrow>
            (\<forall>t\<in>set (pending_reconnects (step (run init evs) (WsClose k))).
               t \<in> set (pending_reconnects (run init evs)) \<or> t_cb t = ReconnectCb (ws_uid so))) \<and>
         (\<forall>t\<in>set (pending_reconnects (run init evs)). \<forall>uid. t_cb t = ReconnectCb uid \<longrightarrow>
            pending_reconnects (step (run init evs) (Fire (t_id t) ok)) = [] \<and>
            (identities (step (run init evs) (Fire (t_id t) ok)) = identities (run init evs) \<or>
             identities (step (run init evs) (Fire (t_id t) ok)) = identities (run init evs) @ [uid]))"
proof -
  have inv: "timers_ok (run init evs)"
    by (rule timers_ok_run [OF timers_ok_init assms])
  have one: "length (pending_reconnects (run init evs)) \<le> 1"
    by (rule timers_ok_at_most_one [OF inv])
  have delay: "\<forall>t\<in>set (pending_reconnects (run init evs)). t_delay t = 3000 \<and> \<not> t_repeat t"
    using inv by (simp add: timers_ok_def pending_reconnects_def)
  have busy: "pending_reconnects (run init evs) \<noteq> [] \<longrightarrow>
      pending_reconnects (step (run init evs) (WsClose k)) = pending_reconnects (run init evs)"
    using step_close_busy [OF inv] by blast
  have ident: "\<forall>so. map_of (sockets (run init evs)) k = Some so \<longrightarrow>
            (\<forall>t\<in>set (pending_reconnects (step (run init evs) (WsClose k))).
               t \<in> set (pending_reconnects (run init evs)) \<or> t_cb t = ReconnectCb (ws_uid so))"
    using step_close_identity by blast
  have fired: "\<forall>t\<in>set (pending_reconnects (run init evs)). \<forall>uid. t_cb t = ReconnectCb uid \<longrightarrow>
            pending_reconnects (step (run init evs) (Fire (t_id t) ok)) = [] \<and>
            (identities (step (run init evs) (Fire (t_id t) ok)) = identities (run init evs) \<or>
             identities (step (run init evs) (Fire (t_id t) ok)) = identities (run init evs) @ [uid])"
    using pending_after_fire [OF inv] identities_after_fire [OF inv] by simp
  show ?thesis using one delay busy ident fired by blast
qed

text \<open>The witness: the channel of \<^verbatim>\<open>u1\<close> opened and closed, one timer pending.\<close>

lemma lost_connection_eq:
  "run init lost_connection =
     \<lparr> isRunning = False, showResults = False, result = None, userId = Some (js ''u1''),
       wsRef = None, taskIdRef = None, uploadProgress = [], agentLogs = [],
       reconnectTimeoutRef = Some 2, wsConnected = False, pingIntervalRef = None,
       pollIntervalRef = None,
       timers = [\<lparr> t_id = 2, t_cb = ReconnectCb (js ''u1''), t_delay = 3000, t_repeat = False \<rparr>],
       nextTimer = 3, sockets = [(0, \<lparr> ws_uid = js ''u1'', readyState = CLOSED \<rparr>)],
       nextSock = 1, closures = [], outbox = [] \<rparr>"
  by (simp add: lost_connection_def init_def run_def handler_defs)

theorem reconnect_timer_unique_witness:
  "Cleanup \<notin> set lost_connection \<and>
   pending_reconnects (run init lost_connection) =
     [\<lparr> t_id = 2, t_cb = ReconnectCb (js ''u1''), t_delay = 3000, t_repeat = False \<rparr>] \<and>
   map_of (sockets (run init lost_connection)) 0 = Some \<lparr> ws_uid = js ''u1'', readyState = CLOSED \<rparr> \<and>
   length (pending_reconnects (run init lost_connection)) \<le> 1 \<and>
   pending_reconnects (step (run init lost_connection) (WsClose 0)) =
     pending_reconnects (run init lost_connection) \<and>
   pending_reconnects (step (run init lost_connection) (Fire 2 True)) = [] \<and>
   identities (step (run init lost_connection) (Fire 2 True)) = [js ''u1'', js ''u1'']"
proof -
  have h: "Cleanup \<notin> set lost_connection" by (simp add: lost_connection_def)
  have p: "pending_reconnects (run init lost_connection) =
     [\<lparr> t_id = 2, t_cb = ReconnectCb (js ''u1''), t_delay = 3000, t_repeat = False \<rparr>]"
    by (simp add: lost_connection_eq pending_reconnects_def is_reconnect_def)
  have i: "identities (step (run init lost_connection) (Fire 2 True)) = [js ''u1'', js ''u1'']"
    by (simp add: lost_connection_eq identities_def handler_defs)
  show ?thesis
    using reconnect_timer_unique [OF h, of 0 True] h p i
    by (simp add: lost_connection_eq)
qed

section \<open>The poll budget (C6)\<close>

text \<open>A tick whose response is not terminal and whose count stays below maxPolls.\<close>

lemma poll_tick_continue:
  assumes "find (\<lambda>t. t_id t = c) (timers s) = Some t" and "t_cb t = PollCb"
    and "map_of (closures s) c = Some pc"
    and "\<not> cap_showResults pc" and "cap_agentLogs pc = []"
    and "nonterminal_response resp" and "Suc (pollCount pc) < maxPolls"
  shows "poll_tick s c resp now =
           emit (set_closure s c (pc\<lparr> pollCount := Suc (pollCount pc) \<rparr>)) (GetTaskReq (newTaskId pc))"
proof -
  let ?pc = "pc\<lparr> pollCount := Suc (pollCount pc) \<rparr>"
  let ?s1 = "emit (set_closure s c ?pc) (GetTaskReq (newTaskId pc))"
  have b: "poll_begin s c = (?s1, True)"
    using assms(3,4,5) by (simp add: poll_begin_def)
  have m: "map_of (closures ?s1) c = Some ?pc"
    using map_of_set_closure [OF assms(3)] by (simp add: emit_def set_closure_def)
  have r: "poll_resume ?s1 c resp now = ?s1"
    using m assms(6,7)
    by (cases resp) (auto simp: poll_resume_def nonterminal_response_def)
  show ?thesis using assms(1,2) b r by (simp add: poll_tick_def)
qed

lemma poll_tick_timeout:
  assumes "find (\<lambda>t. t_id t = c) (timers s) = Some t" and "t_cb t = PollCb"
    and "map_of (closures s) c = Some pc"
    and "\<not> cap_showResults pc" and "cap_agentLogs pc = []"
    and "nonterminal_response resp" and "maxPolls \<le> Suc (pollCount pc)"
  shows "poll_tick s c resp now =
           (stop_poll (emit (set_closure s c (pc\<lparr> pollCount := Suc (pollCount pc) \<rparr>))
                            (GetTaskReq (newTaskId pc))))
             \<lparr> result := Some timeout_result, showResults := True, isRunning := False \<rparr>"
proof -
  let ?pc = "pc\<lparr> pollCount := Suc (pollCount pc) \<rparr>"
  let ?s1 = "emit (set_closure s c ?pc) (GetTaskReq (newTaskId pc))"
  have b: "poll_begin s c = (?s1, True)"
    using assms(3,4,5) by (simp add: poll_begin_def)
  have m: "map_of (closures ?s1) c = Some ?pc"
    using map_of_set_closure [OF assms(3)] by (simp add: emit_def set_closure_def)
  have r: "poll_resume ?s1 c resp now =
             (stop_poll ?s1)\<lparr> result := Some timeout_result, showResults := True, isRunning := False \<rparr>"
    using m assms(6,7)
    by (cases resp) (auto simp: poll_resume_def nonterminal_response_def)
  show ?thesis using assms(1,2) b r by (simp add: poll_tick_def)
qed

text \<open>What ticks below the limit leave behind.\<close>

lemma poll_ticks_Cons:
  "poll_ticks s c (r # rs) = poll_ticks (poll_tick s c (fst r) (snd r)) c rs"
  by (simp add: poll_ticks_def case_prod_beta)

lemma poll_ticks_snoc:
  "poll_ticks s c (rs @ [r]) = poll_tick (poll_ticks s c rs) c (fst r) (snd r)"
  by (simp add: poll_ticks_def case_prod_beta)

lemma poll_ticks_continue:
  assumes "find (\<lambda>t. t_id t = c) (timers s) = Some t" and "t_cb t = PollCb"
    and "map_of (closures s) c = Some pc"
    and "\<not> cap_showResults pc" and "cap_agentLogs pc = []"
    and "\<forall>r\<in>set rs. nonterminal_response (fst r)"
    and "pollCount pc + length rs < maxPolls"
  shows "timers (poll_ticks s c rs) = timers s \<and>
         map_of (closures (poll_ticks s c rs)) c = Some (pc\<lparr> pollCount := pollCount pc + length rs \<rparr>) \<and>
         pollIntervalRef (poll_ticks s c rs) = pollIntervalRef s \<and>
         result (poll_ticks s c rs) = result s \<and>
         showResults (poll_ticks s c rs) = showResults s \<and>
         isRunning (poll_ticks s c rs) = isRunning s \<and>
         taskIdRef (poll_ticks s c rs) = taskIdRef s \<and>
         agentLogs (poll_ticks s c rs) = agentLogs s \<and>
         outbox (poll_ticks s c rs) = outbox s @ replicate (length rs) (GetTaskReq (newTaskId pc))"
  using assms
proof (induction rs arbitrary: s pc)
  case Nil
  then show ?case by (simp add: poll_ticks_def)
next
  case (Cons r rs)
  let ?pc = "pc\<lparr> pollCount := Suc (pollCount pc) \<rparr>"
  let ?s1 = "emit (set_closure s c ?pc) (GetTaskReq (newTaskId pc))"
  have step: "poll_tick s c (fst r) (snd r) = ?s1"
    using poll_tick_continue [OF Cons.prems(1,2,3,4,5)] Cons.prems(6,7) by simp
  have t1: "find (\<lambda>t. t_id t = c) (timers ?s1) = Some t"
    using Cons.prems(1) by (simp add: emit_def set_closure_def)
  have m1: "map_of (closures ?s1) c = Some ?pc"
    using map_of_set_closure [OF Cons.prems(3)] by (simp add: emit_def set_closure_def)
  have ih: "timers (poll_ticks ?s1 c rs) = timers ?s1 \<and>
         map_of (closures (poll_ticks ?s1 c rs)) c = Some (?pc\<lparr> pollCount := pollCount ?pc + length rs \<rparr>) \<and>
         pollIntervalRef (poll_ticks ?s1 c rs) = pollIntervalRef ?s1 \<and>
         result (poll_ticks ?s1 c rs) = result ?s1 \<and>
         showResults (poll_ticks ?s1 c rs) = showResults ?s1 \<and>
         isRunning (poll_ticks ?s1 c rs) = isRunning ?s1 \<and>
         taskIdRef (poll_ticks ?s1 c rs) = taskIdRef ?s1 \<and>
         agentLogs (poll_ticks ?s1 c rs) = agentLogs ?s1 \<and>
         outbox (poll_ticks ?s1 c rs) = outbox ?s1 @ replicate (length rs) (GetTaskReq (newTaskId ?pc))"
    using Cons.prems(4,5,6,7) by (intro Cons.IH [OF t1 Cons.prems(2) m1]) simp_all
  show ?case
    unfolding poll_ticks_Cons step
    using ih by (simp add: emit_def set_closure_def replicate_append_same)
qed


text \<open>The concrete sessions polled: the session awaiting \<^verbatim>\<open>t1\<close>, the first timer after
  \<open>double_start\<close>, and the timer of \<open>resubmitted\<close>.\<close>

lemma polled_0: "polled 0 = awaiting_t1"
  by (simp add: polled_def awaiting_t1_eq)

lemma poll_tick_polled:
  "Suc n < 30 \<Longrightarrow> poll_tick (polled n) 2 (PollOk ''running'' None) now = polled (Suc n)"
  by (simp add: polled_def awaiting_t1_eq handler_defs replicate_append_same)

lemma poll_ticks_polled:
  "n < 30 \<Longrightarrow> poll_ticks awaiting_t1 2 (replicate n (PollOk ''running'' None, now)) = polled n"
proof (induction n)
  case 0
  then show ?case by (simp add: poll_ticks_def polled_0)
next
  case (Suc n)
  have "replicate (Suc n) (PollOk ''running'' None, now) =
          replicate n (PollOk ''running'' None, now) @ [(PollOk ''running'' None, now)]"
    by (simp add: replicate_append_same)
  then show ?case using Suc by (simp add: poll_ticks_snoc poll_tick_polled)
qed

lemma take_29: "take 29 still_running = replicate 29 (PollOk ''running'' None, ''12:00'')"
  by (simp add: still_running_def)


lemma poll_ticks_still_running:
  "poll_ticks s c still_running =
     poll_tick (poll_ticks s c (replicate 29 (PollOk ''running'' None, ''12:00''))) c
       (PollOk ''running'' None) ''12:00''"
  by (simp add: still_running_def replicate_30 poll_ticks_snoc)

lemma awaiting_t1_timed_out:
  "poll_ticks awaiting_t1 2 still_running =
     (polled 30)\<lparr> result := Some timeout_result, showResults := True, isRunning := False,
                   pollIntervalRef := None,
                   timers := [\<lparr> t_id = 1, t_cb = PingCb 0, t_delay = 30000, t_repeat = True \<rparr>] \<rparr>"
  unfolding poll_ticks_still_running
  by (simp add: poll_ticks_polled)
     (simp add: polled_def awaiting_t1_eq handler_defs replicate_30)

lemma orphan_polled_0: "orphan_polled 0 = run connected double_start"
  by (simp add: orphan_polled_def double_start_eq)

lemma poll_tick_orphan:
  "Suc n < 30 \<Longrightarrow> poll_tick (orphan_polled n) 2 (PollOk ''running'' None) now = orphan_polled (Suc n)"
  by (simp add: orphan_polled_def double_start_eq handler_defs replicate_append_same)

lemma poll_ticks_orphan:
  "n < 30 \<Longrightarrow>
   poll_ticks (run connected double_start) 2 (replicate n (PollOk ''running'' None, now)) =
     orphan_polled n"
proof (induction n)
  case 0
  then show ?case by (simp add: poll_ticks_def orphan_polled_0)
next
  case (Suc n)
  have "replicate (Suc n) (PollOk ''running'' None, now) =
          replicate n (PollOk ''running'' None, now) @ [(PollOk ''running'' None, now)]"
    by (simp add: replicate_append_same)
  then show ?case using Suc by (simp add: poll_ticks_snoc poll_tick_orphan)
qed

lemma orphan_timed_out:
  "poll_ticks (run connected double_start) 2 still_running =
     (orphan_polled 30)\<lparr> result := Some timeout_result, showResults := True, isRunning := False,
                          pollIntervalRef := None,
                          timers := [\<lparr> t_id = 1, t_cb = PingCb 0, t_delay = 30000, t_repeat = True \<rparr>,
                                     \<lparr> t_id = 2, t_cb = PollCb, t_delay = 3000, t_repeat = True \<rparr>] \<rparr>"
  unfolding poll_ticks_still_running
  by (simp add: poll_ticks_orphan)
     (simp add: orphan_polled_def double_start_eq handler_defs replicate_30)

lemma poll_ticks_dead:
  "find (\<lambda>t. t_id t = c) (timers s) = None \<Longrightarrow> poll_ticks s c rs = s"
  by (induction rs) (simp_all add: poll_ticks_def poll_tick_def case_prod_beta)

lemma resubmitted_polled:
  "poll_ticks resubmitted 3 still_running =
     resubmitted\<lparr> pollIntervalRef := None,
                   timers := [\<lparr> t_id = 1, t_cb = PingCb 0, t_delay = 30000, t_repeat = True \<rparr>],
                   closures := [(2, \<lparr> pollCount = 0, newTaskId = ''t1'', cap_showResults = False,
                                      cap_agentLogs = [] \<rparr>),
                                (3, \<lparr> pollCount = 1, newTaskId = ''t2'', cap_showResults = True,
                                      cap_agentLogs = [] \<rparr>)] \<rparr>"
proof -
  let ?z = "resubmitted\<lparr> pollIntervalRef := None,
                   timers := [\<lparr> t_id = 1, t_cb = PingCb 0, t_delay = 30000, t_repeat = True \<rparr>],
                   closures := [(2, \<lparr> pollCount = 0, newTaskId = ''t1'', cap_showResults = False,
                                      cap_agentLogs = [] \<rparr>),
                                (3, \<lparr> pollCount = 1, newTaskId = ''t2'', cap_showResults = True,
                                      cap_agentLogs = [] \<rparr>)] \<rparr>"
  have one: "poll_tick resubmitted 3 (PollOk ''running'' None) ''12:00'' = ?z"
    by (simp add: resubmitted_eq handler_defs)
  have dead: "find (\<lambda>t. t_id t = 3) (timers ?z) = None" by simp
  have sr: "still_running = (PollOk ''running'' None, ''12:00'') # replicate 29 (PollOk ''running'' None, ''12:00'')"
    by (simp add: still_running_def replicate_30 replicate_append_same)
  have "poll_ticks resubmitted 3 still_running =
      poll_ticks (poll_tick resubmitted 3 (PollOk ''running'' None) ''12:00'') 3
        (replicate 29 (PollOk ''running'' None, ''12:00''))"
    unfolding sr poll_ticks_Cons by simp
  also have "\<dots> = ?z" unfolding one by (rule poll_ticks_dead [OF dead])
  finally show ?thesis .
qed

text \<open>
  Claim C6, as stated, fails.
  After 30 polls of the session awaiting \<^verbatim>\<open>t1\<close> the page shows the panel "Task Failed" with
  "Unknown error occurred", the panel of a failed task, and none of the guidance.
  When a response arrives after the next tick has fired, the timeout is applied on the
  first late response, the pushed result "done" replaces it, and the second late response
  applies the timeout again.
  The first poll timer after \<open>double_start\<close> is not the one \<^verbatim>\<open>pollIntervalRef\<close> holds:
  its 30th poll stores the timeout object and leaves the timer running, and the 31st poll
  runs.
  The poll timer of \<open>resubmitted\<close> stops itself on its first tick: the session still runs,
  without result, when 30 intervals have passed.
\<close>

theorem timeout_shown_as_failure_and_repeated:
  "shown (poll_ticks awaiting_t1 2 still_running) = TaskFailed ''Unknown error occurred'' \<and>
   ResultsPanel True (Some poll_failed_result) = TaskFailed ''Task failed'' \<and>
   result (run (poll_ticks awaiting_t1 2 (take 29 still_running)) (take 3 late_responses)) =
     Some timeout_result \<and>
   result (run (poll_ticks awaiting_t1 2 (take 29 still_running)) (take 4 late_responses)) =
     Some (summary_result ''done'') \<and>
   result (run (poll_ticks awaiting_t1 2 (take 29 still_running)) late_responses) =
     Some timeout_result \<and>
   result (poll_ticks (run connected double_start) 2 still_running) = Some timeout_result \<and>
   live (poll_ticks (run connected double_start) 2 still_running) 2 \<and>
   poll_tick (poll_ticks (run connected double_start) 2 still_running) 2
       (PollOk ''running'' None) ''12:31'' \<noteq>
     poll_ticks (run connected double_start) 2 still_running \<and>
   isRunning (poll_ticks resubmitted 3 still_running) \<and>
   result (poll_ticks resubmitted 3 still_running) = None \<and>
   poll_timers (poll_ticks resubmitted 3 still_running) = []"
proof -
  have a: "shown (poll_ticks awaiting_t1 2 still_running) = TaskFailed ''Unknown error occurred'' \<and>
           ResultsPanel True (Some poll_failed_result) = TaskFailed ''Task failed''"
    by (simp add: awaiting_t1_timed_out shown_def ResultsPanel_def timeout_result_def
                  poll_failed_result_def truthy_def or_default_def)
  have p29: "poll_ticks awaiting_t1 2 (take 29 still_running) = polled 29"
    by (simp add: take_29 poll_ticks_polled)
  have b: "result (run (polled 29) (take 3 late_responses)) = Some timeout_result \<and>
           result (run (polled 29) (take 4 late_responses)) = Some (summary_result ''done'') \<and>
           result (run (polled 29) late_responses) = Some timeout_result"
    by (simp add: late_responses_def run_def polled_def awaiting_t1_eq completed_msg_def
                  handler_defs)
  have c1: "result (poll_ticks (run connected double_start) 2 still_running) = Some timeout_result \<and>
            live (poll_ticks (run connected double_start) 2 still_running) 2"
    by (simp add: orphan_timed_out live_def)
  have c2: "outbox (poll_tick (poll_ticks (run connected double_start) 2 still_running) 2
                      (PollOk ''running'' None) ''12:31'') \<noteq>
            outbox (poll_ticks (run connected double_start) 2 still_running)"
    unfolding orphan_timed_out
    by (simp add: orphan_polled_def double_start_eq handler_defs)
  then have c3: "poll_tick (poll_ticks (run connected double_start) 2 still_running) 2
                      (PollOk ''running'' None) ''12:31'' \<noteq>
            poll_ticks (run connected double_start) 2 still_running"
    by auto
  have d: "isRunning (poll_ticks resubmitted 3 still_running) \<and>
           result (poll_ticks resubmitted 3 still_running) = None \<and>
           poll_timers (poll_ticks resubmitted 3 still_running) = []"
    unfolding resubmitted_polled by (simp add: resubmitted_eq poll_timers_def)
  show ?thesis using a b c1 c3 d unfolding p29 by simp
qed

text \<open>
  Claim C6, amended. Let a poll timer be live and held by \<^verbatim>\<open>pollIntervalRef\<close>, its closure
  at \<^verbatim>\<open>pollCount = 0\<close> and created while no result was shown and no log was listed, and
  let 30 consecutive whole ticks (each response handled before the next tick fires) each
  get a response that is not terminal. Then the first 29 ticks leave the result, the
  flags and the timer as they were; the 30th stores the timeout object, sets
  \<^verbatim>\<open>showResults\<close>, clears \<^verbatim>\<open>isRunning\<close> and cancels the timer, so no later tick runs; 30
  requests were issued. The timer is created with an interval of 3000 ms. The stored
  object differs from the objects stored on failure and carries "May still be processing"
  and "Check History page later".
\<close>

theorem thirty_ticks_time_out:
  assumes "find (\<lambda>t. t_id t = c) (timers s) = Some t" and "t_cb t = PollCb"
    and "pollIntervalRef s = Some c"
    and "map_of (closures s) c = Some pc" and "pollCount pc = 0"
    and "\<not> cap_showResults pc" and "cap_agentLogs pc = []"
    and "length rs = maxPolls" and "\<forall>r\<in>set rs. nonterminal_response (fst r)"
  shows "(\<forall>n<maxPolls.
            result (poll_ticks s c (take n rs)) = result s \<and>
            showResults (poll_ticks s c (take n rs)) = showResults s \<and>
            isRunning (poll_ticks s c (take n rs)) = isRunning s \<and>
            pollIntervalRef (poll_ticks s c (take n rs)) = Some c \<and>
            live (poll_ticks s c (take n rs)) c) \<and>
         result (poll_ticks s c rs) = Some timeout_result \<and>
         showResults (poll_ticks s c rs) \<and>
         \<not> isRunning (poll_ticks s c rs) \<and>
         pollIntervalRef (poll_ticks s c rs) = None \<and>
         \<not> live (poll_ticks s c rs) c \<and>
         poll_tick (poll_ticks s c rs) c resp now = poll_ticks s c rs \<and>
         fire (poll_ticks s c rs) c ok = poll_ticks s c rs \<and>
         outbox (poll_ticks s c rs) = outbox s @ replicate maxPolls (GetTaskReq (newTaskId pc)) \<and>
         maxPolls = 30 \<and>
         timers (task_created s0 hc (CreateOk tid)) =
           timers s0 @ [\<lparr> t_id = nextTimer s0, t_cb = PollCb, t_delay = 3000, t_repeat = True \<rparr>] \<and>
         timeout_result \<noteq> poll_failed_result \<and>
         timeout_result \<noteq> push_error_result e \<and>
         r_insights timeout_result = [''May still be processing''] \<and>
         r_recommendations timeout_result = [''Check History page later'']"
proof -
  have before: "result (poll_ticks s c (take n rs)) = result s \<and>
            showResults (poll_ticks s c (take n rs)) = showResults s \<and>
            isRunning (poll_ticks s c (take n rs)) = isRunning s \<and>
            pollIntervalRef (poll_ticks s c (take n rs)) = Some c \<and>
            live (poll_ticks s c (take n rs)) c" if n: "n < maxPolls" for n
  proof -
    have a: "\<forall>r\<in>set (take n rs). nonterminal_response (fst r)"
      using assms(9) by (meson in_set_takeD)
    have b: "pollCount pc + length (take n rs) < maxPolls"
      using n assms(5,8) by simp
    have "live (poll_ticks s c (take n rs)) c"
      using poll_ticks_continue [OF assms(1,2,4,6,7) a b] live_find [OF assms(1)]
      by (simp add: live_def)
    then show ?thesis
      using poll_ticks_continue [OF assms(1,2,4,6,7) a b] assms(3) by simp
  qed
  obtain rs' r where rs: "rs = rs' @ [r]" and len: "length rs' = 29"
    using assms(8) by (cases rs rule: rev_cases) (auto simp: maxPolls_def)
  let ?s29 = "poll_ticks s c rs'"
  let ?pc29 = "pc\<lparr> pollCount := pollCount pc + length rs' \<rparr>"
  have a': "\<forall>r\<in>set rs'. nonterminal_response (fst r)" using assms(9) rs by simp
  have b': "pollCount pc + length rs' < maxPolls" using len assms(5) by (simp add: maxPolls_def)
  note k = poll_ticks_continue [OF assms(1,2,4,6,7) a' b']
  have t29: "find (\<lambda>t. t_id t = c) (timers ?s29) = Some t" using k assms(1) by simp
  have m29: "map_of (closures ?s29) c = Some ?pc29" using k by simp
  have last: "poll_ticks s c rs =
      (stop_poll (emit (set_closure ?s29 c (?pc29\<lparr> pollCount := Suc (pollCount ?pc29) \<rparr>))
                       (GetTaskReq (newTaskId ?pc29))))
        \<lparr> result := Some timeout_result, showResults := True, isRunning := False \<rparr>"
    unfolding rs poll_ticks_snoc
    using assms(5,6,7,9) rs len
    by (intro poll_tick_timeout [OF t29 assms(2) m29]) (simp_all add: maxPolls_def)
  let ?s1 = "emit (set_closure ?s29 c (?pc29\<lparr> pollCount := Suc (pollCount ?pc29) \<rparr>))
                  (GetTaskReq (newTaskId ?pc29))"
  have ref1: "pollIntervalRef ?s1 = Some c"
    using k assms(3) by (simp add: emit_def set_closure_def)
  note sp = stop_poll_cancels [OF ref1]
  have out1: "outbox (stop_poll ?s1) = outbox s @ replicate maxPolls (GetTaskReq (newTaskId pc))"
    using k ref1 len
    by (simp add: stop_poll_def clearTimer_def emit_def set_closure_def maxPolls_def
                  replicate_30)
  have f: "find (\<lambda>t. t_id t = c) (timers (poll_ticks s c rs)) = None"
    unfolding last using sp by simp
  have after: "result (poll_ticks s c rs) = Some timeout_result \<and>
         showResults (poll_ticks s c rs) \<and> \<not> isRunning (poll_ticks s c rs) \<and>
         pollIntervalRef (poll_ticks s c rs) = None \<and> \<not> live (poll_ticks s c rs) c \<and>
         outbox (poll_ticks s c rs) = outbox s @ replicate maxPolls (GetTaskReq (newTaskId pc))"
    unfolding last using sp out1 by (simp add: live_def)
  have no_tick: "poll_tick (poll_ticks s c rs) c resp now = poll_ticks s c rs"
    using f by (simp add: poll_tick_def)
  have no_fire: "fire (poll_ticks s c rs) c ok = poll_ticks s c rs"
    using f by (simp add: fire_def)
  have fixed: "maxPolls = 30 \<and>
         timers (task_created s0 hc (CreateOk tid)) =
           timers s0 @ [\<lparr> t_id = nextTimer s0, t_cb = PollCb, t_delay = 3000, t_repeat = True \<rparr>] \<and>
         timeout_result \<noteq> poll_failed_result \<and>
         timeout_result \<noteq> push_error_result e \<and>
         r_insights timeout_result = [''May still be processing''] \<and>
         r_recommendations timeout_result = [''Check History page later'']"
    by (simp add: maxPolls_def task_created_def setTimer_def timeout_result_def
                  poll_failed_result_def push_error_result_def)
  show ?thesis using before after no_tick no_fire fixed by blast
qed


text \<open>The witness: the session awaiting \<^verbatim>\<open>t1\<close>, polled 30 times while the task runs.\<close>

theorem thirty_ticks_time_out_witness:
  "find (\<lambda>t. t_id t = 2) (timers awaiting_t1) =
     Some \<lparr> t_id = 2, t_cb = PollCb, t_delay = 3000, t_repeat = True \<rparr> \<and>
   pollIntervalRef awaiting_t1 = Some 2 \<and>
   map_of (closures awaiting_t1) 2 =
     Some \<lparr> pollCount = 0, newTaskId = ''t1'', cap_showResults = False, cap_agentLogs = [] \<rparr> \<and>
   length still_running = maxPolls \<and>
   set still_running = {(PollOk ''running'' None, ''12:00'')} \<and>
   nonterminal_response (PollOk ''running'' None) \<and>
   isRunning (poll_ticks awaiting_t1 2 (take 29 still_running)) \<and>
   result (poll_ticks awaiting_t1 2 (take 29 still_running)) = None \<and>
   result (poll_ticks awaiting_t1 2 still_running) = Some timeout_result \<and>
   showResults (poll_ticks awaiting_t1 2 still_running) \<and>
   \<not> isRunning (poll_ticks awaiting_t1 2 still_running) \<and>
   pollIntervalRef (poll_ticks awaiting_t1 2 still_running) = None \<and>
   \<not> live (poll_ticks awaiting_t1 2 still_running) 2"
proof -
  let ?t = "\<lparr> t_id = 2, t_cb = PollCb, t_delay = 3000, t_repeat = True \<rparr>"
  let ?pc = "\<lparr> pollCount = 0, newTaskId = ''t1'', cap_showResults = False, cap_agentLogs = [] \<rparr>"
  have h1: "find (\<lambda>t. t_id t = 2) (timers awaiting_t1) = Some ?t"
    by (simp add: awaiting_t1_eq)
  have h2: "t_cb ?t = PollCb" by simp
  have h3: "pollIntervalRef awaiting_t1 = Some 2" by (simp add: awaiting_t1_eq)
  have h4: "map_of (closures awaiting_t1) 2 = Some ?pc" by (simp add: awaiting_t1_eq)
  have h5: "pollCount ?pc = 0" and h6: "\<not> cap_showResults ?pc" and h7: "cap_agentLogs ?pc = []"
    by simp_all
  have h8: "length still_running = maxPolls" by (simp add: still_running_def maxPolls_def)
  have h9: "\<forall>r\<in>set still_running. nonterminal_response (fst r)"
    by (simp add: still_running_def nonterminal_response_def)
  have n: "(29::nat) < maxPolls" by (simp add: maxPolls_def)
  have r: "isRunning awaiting_t1" "result awaiting_t1 = None" by (simp_all add: awaiting_t1_eq)
  have e: "set still_running = {(PollOk ''running'' None, ''12:00'')} \<and>
           nonterminal_response (PollOk ''running'' None)"
    by (simp add: still_running_def nonterminal_response_def)
  show ?thesis
    using thirty_ticks_time_out [OF h1 h2 h3 h4 h5 h6 h7 h8 h9] h1 h3 h4 h8 n r e
    by simp
qed

section \<open>Uploads (C5)\<close>

lemma upload_files_ok:
  "\<forall>p\<in>set files. snd p \<noteq> UploadFailed \<Longrightarrow>
   upload_files s files up =
     (s\<lparr> outbox := outbox s @ map (\<lambda>p. UploadReq (fst p)) files \<rparr>, Some (up @ uploaded_names files))"
proof (induction files arbitrary: s up)
  case Nil
  then show ?case by (simp add: uploaded_names_def)
next
  case (Cons p files)
  obtain f oc where p: "p = (f, oc)" by (cases p)
  obtain n where oc: "oc = Uploaded n" using Cons.prems p by (cases oc) auto
  show ?case using Cons p oc by (simp add: emit_def uploaded_names_def)
qed

lemma upload_files_fail:
  "\<forall>p\<in>set pre. snd p \<noteq> UploadFailed \<Longrightarrow>
   upload_files s (pre @ (f, UploadFailed) # post) up =
     (s\<lparr> outbox := outbox s @ map (\<lambda>p. UploadReq (fst p)) pre @
                      [UploadReq f, Alert (''Failed to upload '' @ f)],
         isRunning := False \<rparr>, None)"
proof (induction pre arbitrary: s up)
  case Nil
  then show ?case by (simp add: emit_def)
next
  case (Cons p pre)
  obtain g oc where p: "p = (g, oc)" by (cases p)
  obtain n where oc: "oc = Uploaded n" using Cons.prems p by (cases oc) auto
  show ?case using Cons p oc by (simp add: emit_def)
qed


lemma outbox_setupWebSocket: "outbox (setupWebSocket s uid ok) = outbox s"
  by (simp add: setupWebSocket_def ws_close_def setReadyState_def Let_def split: option.splits)

lemma isRunning_setupWebSocket: "isRunning (setupWebSocket s uid ok) = isRunning s"
  by (simp add: setupWebSocket_def ws_close_def setReadyState_def Let_def split: option.splits)

lemma outbox_request_create:
  "outbox (request_create s hc taskText up ok) = outbox s @ [CreateTaskReq taskText up]"
  by (simp add: request_create_def Let_def emit_def outbox_setupWebSocket split: option.splits)

lemma isRunning_request_create:
  "isRunning (request_create s hc taskText up ok) = isRunning s"
  by (simp add: request_create_def Let_def emit_def isRunning_setupWebSocket split: option.splits)

text \<open>
  Claim C5. For a description that is not blank and a token that is present: the files are
  uploaded one after the other in list order; when the upload of a file fails after the
  files before it succeeded, the handler has issued the upload requests up to that file
  and the alert "Failed to upload" with the file's name, no request to create a task,
  \<^verbatim>\<open>isRunning\<close> is false again and no task id is bound; when every upload succeeds the
  request to create the task follows the uploads and carries the uploaded names; with no
  files the request to create the task is the first action.
\<close>

theorem upload_failure_aborts_submission:
  assumes "\<not> blank taskText" and "truthy token"
  shows "((\<forall>p\<in>set pre. snd p \<noteq> UploadFailed) \<longrightarrow>
            handleStartTaskWithFiles s taskText (pre @ (f, UploadFailed) # post) token ok resp =
              s\<lparr> isRunning := False, showResults := False, result := None, agentLogs := [],
                 uploadProgress := [], taskIdRef := None,
                 outbox := outbox s @ map (\<lambda>p. UploadReq (fst p)) pre @
                             [UploadReq f, Alert (''Failed to upload '' @ f)] \<rparr> \<and>
            CreateTaskReq d u \<notin> set (drop (length (outbox s))
              (outbox (handleStartTaskWithFiles s taskText (pre @ (f, UploadFailed) # post)
                         token ok resp)))) \<and>
         ((\<forall>p\<in>set files. snd p \<noteq> UploadFailed) \<longrightarrow>
            snd (start_request s taskText files token ok) \<and>
            isRunning (fst (start_request s taskText files token ok)) \<and>
            outbox (fst (start_request s taskText files token ok)) =
              outbox s @ map (\<lambda>p. UploadReq (fst p)) files @
                [CreateTaskReq taskText (uploaded_names files)]) \<and>
         snd (start_request s taskText [] token ok) \<and>
         outbox (fst (start_request s taskText [] token ok)) = outbox s @ [CreateTaskReq taskText []]"
proof -
  let ?s1 = "s\<lparr> isRunning := True, showResults := False, result := None,
                 agentLogs := [], uploadProgress := [], taskIdRef := None \<rparr>"
  have b: "submit_begin s taskText token = (?s1, True)"
    using assms by (simp add: submit_begin_def)
  have fail: "handleStartTaskWithFiles s taskText (pre @ (f, UploadFailed) # post) token ok resp =
              s\<lparr> isRunning := False, showResults := False, result := None, agentLogs := [],
                 uploadProgress := [], taskIdRef := None,
                 outbox := outbox s @ map (\<lambda>p. UploadReq (fst p)) pre @
                             [UploadReq f, Alert (''Failed to upload '' @ f)] \<rparr>"
    if "\<forall>p\<in>set pre. snd p \<noteq> UploadFailed"
    using upload_files_fail [OF that, of ?s1 f post "[]"] b
    by (simp add: handleStartTaskWithFiles_def start_request_def)
  have nocreate: "CreateTaskReq d u \<notin> set (drop (length (outbox s))
              (outbox (handleStartTaskWithFiles s taskText (pre @ (f, UploadFailed) # post)
                         token ok resp)))"
    if "\<forall>p\<in>set pre. snd p \<noteq> UploadFailed"
    unfolding fail [OF that] by auto
  have ok: "snd (start_request s taskText files token ok) \<and>
            isRunning (fst (start_request s taskText files token ok)) \<and>
            outbox (fst (start_request s taskText files token ok)) =
              outbox s @ map (\<lambda>p. UploadReq (fst p)) files @
                [CreateTaskReq taskText (uploaded_names files)]"
    if "\<forall>p\<in>set files. snd p \<noteq> UploadFailed" for files
    using upload_files_ok [OF that, of ?s1 "[]"] b
    by (simp add: start_request_def outbox_request_create isRunning_request_create)
  have none: "snd (start_request s taskText [] token ok) \<and>
         outbox (fst (start_request s taskText [] token ok)) = outbox s @ [CreateTaskReq taskText []]"
    using ok [of "[]"] by (simp add: uploaded_names_def)
  show ?thesis using fail nocreate ok none by blast
qed

text \<open>The witness: three files, the second fails; one file; no file.\<close>

theorem upload_failure_aborts_submission_witness:
  "\<not> blank (js ''report'') \<and> truthy (Some ''tok'') \<and>
   snd (''a.csv'', Uploaded ''a.csv'') \<noteq> UploadFailed \<and>
   outbox (handleStartTaskWithFiles connected (js ''report'') three_files (Some ''tok'') True (CreateOk ''t1'')) =
     [UploadReq ''a.csv'', UploadReq ''b.pdf'', Alert ''Failed to upload b.pdf''] \<and>
   \<not> isRunning (handleStartTaskWithFiles connected (js ''report'') three_files (Some ''tok'') True (CreateOk ''t1'')) \<and>
   outbox (fst (start_request connected (js ''report'') [(''a.csv'', Uploaded ''a.csv'')] (Some ''tok'') True)) =
     [UploadReq ''a.csv'', CreateTaskReq (js ''report'') [''a.csv'']] \<and>
   outbox (fst (start_request connected (js ''report'') [] (Some ''tok'') True)) = [CreateTaskReq (js ''report'') []]"
proof -
  have h1: "\<not> blank (js ''report'')" by (simp add: js_def blank_def js_space_def)
  have h2: "truthy (Some ''tok'')" by (simp add: truthy_def)
  have h3: "\<forall>p\<in>set [(''a.csv'', Uploaded ''a.csv'')]. snd p \<noteq> UploadFailed" by simp
  have c: "outbox connected = []" by (simp add: connected_eq)
  show ?thesis
    using upload_failure_aborts_submission [OF h1 h2,
            where pre = "[(''a.csv'', Uploaded ''a.csv'')]" and s = connected and f = "''b.pdf''"
              and post = "[(''c.txt'', Uploaded ''c.txt'')]" and ok = True
              and resp = "CreateOk ''t1''" and d = "js ''report''" and u = "[]"
              and files = "[(''a.csv'', Uploaded ''a.csv'')]"]
          h1 h2 h3 c
    by (simp add: three_files_def uploaded_names_def)
qed

section \<open>The identity filter (C2, C10)\<close>

text \<open>
  Claim C2, as stated, fails: the session of \<^verbatim>\<open>u1\<close> has no task id bound, the notification
  carries the task id \<^verbatim>\<open>t0\<close>, which differs from it, and the notification is applied.
\<close>

theorem unbound_session_applies_other_task:
  "taskIdRef connected = None \<and>
   m_task_id (completed_msg (Some ''t0'') ''stale'') \<noteq> taskIdRef connected \<and>
   result (ws_onmessage connected (Json (completed_msg (Some ''t0'') ''stale''))) =
     Some (summary_result ''stale'') \<and>
   ws_onmessage connected (Json (completed_msg (Some ''t0'') ''stale'')) \<noteq> connected"
proof -
  have r: "result (ws_onmessage connected (Json (completed_msg (Some ''t0'') ''stale''))) =
             Some (summary_result ''stale'')"
    by (simp add: connected_eq completed_msg_def handler_defs)
  have n: "result connected = None" by (simp add: connected_eq)
  have "ws_onmessage connected (Json (completed_msg (Some ''t0'') ''stale'')) \<noteq> connected"
    using r n by auto
  then show ?thesis using r by (simp add: connected_eq completed_msg_def)
qed

text \<open>
  Claim C2, amended. While the session holds a task id that is not empty, a notification
  that carries a different task id that is not empty changes nothing: the handler returns
  the state it was given (event log, result, flags, task id, timers and all).
\<close>

theorem mismatched_notification_discarded:
  assumes "truthy (taskIdRef s)" and "truthy (m_task_id m)" and "m_task_id m \<noteq> taskIdRef s"
  shows "ws_onmessage s (Json m) = s \<and> step s (WsMessage k (Json m)) = s"
  using assms by (simp add: ws_onmessage_def filtered_def)

text \<open>The witness for C2: the session awaiting \<^verbatim>\<open>t1\<close> and a notification for \<^verbatim>\<open>t0\<close>.\<close>

theorem mismatched_notification_discarded_witness:
  "truthy (taskIdRef awaiting_t1) \<and> truthy (m_task_id (completed_msg (Some ''t0'') ''stale'')) \<and>
   m_task_id (completed_msg (Some ''t0'') ''stale'') \<noteq> taskIdRef awaiting_t1 \<and>
   ws_onmessage awaiting_t1 (Json (completed_msg (Some ''t0'') ''stale'')) = awaiting_t1 \<and>
   step awaiting_t1 (WsMessage 0 (Json (completed_msg (Some ''t0'') ''stale''))) = awaiting_t1"
proof -
  have h1: "truthy (taskIdRef awaiting_t1)" by (simp add: awaiting_t1_eq truthy_def)
  have h2: "truthy (m_task_id (completed_msg (Some ''t0'') ''stale''))"
    by (simp add: completed_msg_def truthy_def)
  have h3: "m_task_id (completed_msg (Some ''t0'') ''stale'') \<noteq> taskIdRef awaiting_t1"
    by (simp add: completed_msg_def awaiting_t1_eq)
  show ?thesis
    using mismatched_notification_discarded [OF h1 h2 h3, of 0] h1 h2 h3 by simp
qed

text \<open>
  Claim C10. When the session holds no task id (null or empty), or the notification
  carries none, the filter lets the frame through whatever task it belongs to: an
  \<^verbatim>\<open>agent_log\<close> frame appends its log, a \<^verbatim>\<open>task_completed\<close> frame stores its result, a
  \<^verbatim>\<open>task_error\<close> frame stores the error object; both terminal frames show the results,
  clear \<^verbatim>\<open>isRunning\<close> and the task id and stop the poll.
\<close>

theorem filter_bypassed_without_task_id:
  assumes "\<not> truthy (taskIdRef s) \<or> \<not> truthy (m_task_id m)"
  shows "(m_type m = ''agent_log'' \<and> m_log m = Some l \<longrightarrow>
            ws_onmessage s (Json m) = s\<lparr> agentLogs := agentLogs s @ [l] \<rparr>) \<and>
         (m_type m = ''task_completed'' \<longrightarrow>
            result (ws_onmessage s (Json m)) = m_result m \<and>
            showResults (ws_onmessage s (Json m)) \<and>
            \<not> isRunning (ws_onmessage s (Json m)) \<and>
            taskIdRef (ws_onmessage s (Json m)) = None \<and>
            pollIntervalRef (ws_onmessage s (Json m)) = None) \<and>
         (m_type m = ''task_error'' \<longrightarrow>
            result (ws_onmessage s (Json m)) = Some (push_error_result (m_error m)) \<and>
            showResults (ws_onmessage s (Json m)) \<and>
            \<not> isRunning (ws_onmessage s (Json m)) \<and>
            taskIdRef (ws_onmessage s (Json m)) = None \<and>
            pollIntervalRef (ws_onmessage s (Json m)) = None)"
proof -
  have nf: "\<not> filtered s m" using assms by (auto simp: filtered_def)
  show ?thesis using nf by (simp add: ws_onmessage_def stop_poll_fields)
qed

text \<open>The witness for C10: a resolved session (task id null) receiving frames of a task
  \<^verbatim>\<open>t7\<close>, and the session awaiting \<^verbatim>\<open>t1\<close> receiving an error frame without task id.\<close>

theorem filter_bypassed_without_task_id_witness:
  "\<not> truthy (taskIdRef pushed_done) \<and>
   agentLogs (ws_onmessage pushed_done (Json (log_msg (Some ''t7'') ''other task''))) =
     [\<lparr> agent = ''Planner'', action = ''step'', message = ''other task'', timestamp = ''12:00'' \<rparr>] \<and>
   result (ws_onmessage pushed_done (Json (completed_msg (Some ''t7'') ''other task''))) =
     Some (summary_result ''other task'') \<and>
   \<not> truthy (m_task_id (error_msg None ''boom'')) \<and>
   result (ws_onmessage awaiting_t1 (Json (error_msg None ''boom''))) =
     Some (push_error_result (Some ''boom'')) \<and>
   \<not> isRunning (ws_onmessage awaiting_t1 (Json (error_msg None ''boom''))) \<and>
   taskIdRef (ws_onmessage awaiting_t1 (Json (error_msg None ''boom''))) = None"
proof -
  let ?l = "\<lparr> agent = ''Planner'', action = ''step'', message = ''other task'', timestamp = ''12:00'' \<rparr>"
  have h1: "\<not> truthy (taskIdRef pushed_done)" by (simp add: pushed_done_eq truthy_def)
  have h2: "\<not> truthy (m_task_id (error_msg None ''boom''))" by (simp add: error_msg_def truthy_def)
  have a: "agentLogs pushed_done = []" by (simp add: pushed_done_eq)
  show ?thesis
    using filter_bypassed_without_task_id [OF disjI1 [OF h1],
            where m = "log_msg (Some ''t7'') ''other task''" and l = ?l]
          filter_bypassed_without_task_id [OF disjI1 [OF h1],
            where m = "completed_msg (Some ''t7'') ''other task''" and l = ?l]
          filter_bypassed_without_task_id [OF disjI2 [OF h2],
            where s = awaiting_t1 and l = ?l]
          h1 h2 a
    by (simp add: log_msg_def completed_msg_def error_msg_def)
qed

section \<open>Teardown (C4)\<close>

text \<open>
  Claim C4 on the code: the cleanup of the connected page leaves no reconnect timer, but
  the close event of the socket it closed then schedules one (\<^verbatim>\<open>reconnectTimeoutRef\<close> was
  null and nothing records the teardown), and when that timer fires a new socket is
  opened for \<^verbatim>\<open>u1\<close>.
\<close>

theorem teardown_close_schedules_reconnect:
  "pending_reconnects connected = [] \<and>
   pending_reconnects (cleanup connected) = [] \<and>
   torn_down = step (cleanup connected) (WsClose 0) \<and>
   pending_reconnects torn_down =
     [\<lparr> t_id = 2, t_cb = ReconnectCb (js ''u1''), t_delay = 3000, t_repeat = False \<rparr>] \<and>
   sockets (fire torn_down 2 True) =
     [(0, \<lparr> ws_uid = js ''u1'', readyState = CLOSED \<rparr>),
      (1, \<lparr> ws_uid = js ''u1'', readyState = CONNECTING \<rparr>)] \<and>
   wsRef (fire torn_down 2 True) = Some 1"
proof -
  have a: "pending_reconnects connected = [] \<and> pending_reconnects (cleanup connected) = []"
    by (simp add: connected_eq pending_reconnects_def is_reconnect_def handler_defs)
  have b: "torn_down = step (cleanup connected) (WsClose 0)"
    by (simp add: torn_down_def run_def)
  have c: "pending_reconnects torn_down =
     [\<lparr> t_id = 2, t_cb = ReconnectCb (js ''u1''), t_delay = 3000, t_repeat = False \<rparr>]"
    by (simp add: torn_down_eq pending_reconnects_def is_reconnect_def)
  have d: "sockets (fire torn_down 2 True) =
     [(0, \<lparr> ws_uid = js ''u1'', readyState = CLOSED \<rparr>),
      (1, \<lparr> ws_uid = js ''u1'', readyState = CONNECTING \<rparr>)] \<and>
   wsRef (fire torn_down 2 True) = Some 1"
    by (simp add: torn_down_eq handler_defs)
  show ?thesis using a b c d by simp
qed


section \<open>Terminal signals (C1)\<close>

text \<open>
  Claim C1, as stated, fails: the poll resolves the session awaiting \<^verbatim>\<open>t1\<close> with the
  result "done" and clears the task id; a \<^verbatim>\<open>task_error\<close> frame for \<^verbatim>\<open>t1\<close> that arrives
  afterwards passes the filter and replaces the result.
\<close>

theorem push_after_poll_overwrites:
  "taskIdRef awaiting_t1 = Some ''t1'' \<and>
   polled_done = poll_tick awaiting_t1 2 (PollOk ''completed'' (Some (summary_result ''done''))) ''12:01'' \<and>
   result polled_done = Some (summary_result ''done'') \<and>
   result (ws_onmessage polled_done (Json (error_msg (Some ''t1'') ''late''))) =
     Some (push_error_result (Some ''late'')) \<and>
   ws_onmessage polled_done (Json (error_msg (Some ''t1'') ''late'')) \<noteq> polled_done"
proof -
  have a: "result polled_done = Some (summary_result ''done'')" by (simp add: polled_done_eq)
  have b: "result (ws_onmessage polled_done (Json (error_msg (Some ''t1'') ''late''))) =
     Some (push_error_result (Some ''late''))"
    by (simp add: polled_done_eq error_msg_def ws_onmessage_def filtered_def truthy_def
                  stop_poll_fields)
  have c: "summary_result ''done'' \<noteq> push_error_result (Some ''late'')"
    by (simp add: summary_result_def push_error_result_def)
  have d: "ws_onmessage polled_done (Json (error_msg (Some ''t1'') ''late'')) \<noteq> polled_done"
    using a b c by auto
  show ?thesis using a b d by (simp add: awaiting_t1_eq polled_done_def)
qed

lemma push_terminal_applied:
  assumes "\<not> filtered s m" and "m_type m = ''task_completed'' \<or> m_type m = ''task_error''"
  shows "ws_onmessage s (Json m) =
           stop_poll (s\<lparr> result := push_result m, showResults := True, isRunning := False,
                         taskIdRef := None \<rparr>)"
  using assms by (auto simp: ws_onmessage_def push_result_def)

lemma poll_terminal_applied:
  assumes "map_of (closures s) c = Some pc" and "pollCount pc < maxPolls"
    and "\<not> nonterminal_response resp"
  shows "result (poll_resume s c resp now) = poll_result resp \<and>
         showResults (poll_resume s c resp now) \<and>
         \<not> isRunning (poll_resume s c resp now) \<and>
         taskIdRef (poll_resume s c resp now) = None \<and>
         pollIntervalRef (poll_resume s c resp now) = None \<and>
         timers (poll_resume s c resp now) = timers (stop_poll s)"
  using assms
  by (cases resp)
     (auto simp: poll_resume_def nonterminal_response_def poll_result_def stop_poll_fields Let_def)

text \<open>
  Claim C1, amended. For a session with the active task id \<open>t\<close>: a terminal push frame
  for \<open>t\<close> stores its result, shows it, clears \<^verbatim>\<open>isRunning\<close> and the task id and cancels
  the poll timer \<^verbatim>\<open>pollIntervalRef\<close> holds, which then never ticks again; a terminal poll
  response handled before the poll budget is used up does the same. Neither channel
  records that a terminal signal was applied: the push frame arriving after the poll
  resolved, and the poll response arriving after the push resolved, are applied again
  and replace the result.
\<close>

theorem terminal_signal_cancels_poll:
  assumes "taskIdRef s = Some t" and "m_task_id m = Some t"
    and "m_type m = ''task_completed'' \<or> m_type m = ''task_error''"
    and "map_of (closures s) c = Some pc" and "pollCount pc < maxPolls"
    and "\<not> nonterminal_response resp"
  shows "result (ws_onmessage s (Json m)) = push_result m \<and>
         showResults (ws_onmessage s (Json m)) \<and>
         \<not> isRunning (ws_onmessage s (Json m)) \<and>
         taskIdRef (ws_onmessage s (Json m)) = None \<and>
         pollIntervalRef (ws_onmessage s (Json m)) = None \<and>
         (pollIntervalRef s = Some p \<longrightarrow>
            \<not> live (ws_onmessage s (Json m)) p \<and>
            fire (ws_onmessage s (Json m)) p ok = ws_onmessage s (Json m) \<and>
            poll_tick (ws_onmessage s (Json m)) p resp now = ws_onmessage s (Json m)) \<and>
         result (poll_resume s c resp now) = poll_result resp \<and>
         showResults (poll_resume s c resp now) \<and>
         \<not> isRunning (poll_resume s c resp now) \<and>
         taskIdRef (poll_resume s c resp now) = None \<and>
         pollIntervalRef (poll_resume s c resp now) = None \<and>
         (pollIntervalRef s = Some p \<longrightarrow>
            \<not> live (poll_resume s c resp now) p \<and>
            fire (poll_resume s c resp now) p ok = poll_resume s c resp now) \<and>
         result (ws_onmessage (poll_resume s c resp now) (Json m)) = push_result m \<and>
         result (poll_resume (ws_onmessage s (Json m)) c resp now) = poll_result resp"
proof -
  let ?s0 = "s\<lparr> result := push_result m, showResults := True, isRunning := False,
                 taskIdRef := None \<rparr>"
  have nf: "\<not> filtered s m" using assms(1,2) by (simp add: filtered_def)
  have push: "ws_onmessage s (Json m) = stop_poll ?s0"
    by (rule push_terminal_applied [OF nf assms(3)])
  have pf: "result (ws_onmessage s (Json m)) = push_result m \<and>
         showResults (ws_onmessage s (Json m)) \<and>
         \<not> isRunning (ws_onmessage s (Json m)) \<and>
         taskIdRef (ws_onmessage s (Json m)) = None \<and>
         pollIntervalRef (ws_onmessage s (Json m)) = None"
    unfolding push by (simp add: stop_poll_fields)
  have pc: "\<not> live (ws_onmessage s (Json m)) p \<and>
            fire (ws_onmessage s (Json m)) p ok = ws_onmessage s (Json m) \<and>
            poll_tick (ws_onmessage s (Json m)) p resp now = ws_onmessage s (Json m)"
    if "pollIntervalRef s = Some p"
  proof -
    have "pollIntervalRef ?s0 = Some p" using that by simp
    from stop_poll_cancels [OF this] show ?thesis
      unfolding push by (simp add: fire_def poll_tick_def)
  qed
  note q = poll_terminal_applied [OF assms(4,5,6), of now]
  have qc: "\<not> live (poll_resume s c resp now) p \<and>
            fire (poll_resume s c resp now) p ok = poll_resume s c resp now"
    if "pollIntervalRef s = Some p"
  proof -
    have "find (\<lambda>t. t_id t = p) (timers (poll_resume s c resp now)) = None"
      using q stop_poll_cancels [OF that] by simp
    moreover have "\<not> live (poll_resume s c resp now) p"
      using q stop_poll_cancels [OF that] by (simp add: live_def)
    ultimately show ?thesis by (simp add: fire_def)
  qed
  have nf2: "\<not> filtered (poll_resume s c resp now) m"
    using q by (simp add: filtered_def truthy_def)
  have later_push: "result (ws_onmessage (poll_resume s c resp now) (Json m)) = push_result m"
    unfolding push_terminal_applied [OF nf2 assms(3)] by (simp add: stop_poll_fields)
  have clo: "map_of (closures (ws_onmessage s (Json m))) c = Some pc"
    unfolding push using assms(4) by (simp add: stop_poll_fields)
  have later_poll: "result (poll_resume (ws_onmessage s (Json m)) c resp now) = poll_result resp"
    using poll_terminal_applied [OF clo assms(5,6)] by simp
  show ?thesis using pf pc q qc later_push later_poll by blast
qed

text \<open>The witness for C1: the session awaiting \<^verbatim>\<open>t1\<close>, a completion frame for \<^verbatim>\<open>t1\<close> and a
  poll response with status \<^verbatim>\<open>error\<close>.\<close>

theorem terminal_signal_cancels_poll_witness:
  "taskIdRef awaiting_t1 = Some ''t1'' \<and>
   m_task_id (completed_msg (Some ''t1'') ''done'') = Some ''t1'' \<and>
   map_of (closures awaiting_t1) 2 =
     Some \<lparr> pollCount = 0, newTaskId = ''t1'', cap_showResults = False, cap_agentLogs = [] \<rparr> \<and>
   \<not> nonterminal_response (PollOk ''error'' None) \<and>
   pollIntervalRef awaiting_t1 = Some 2 \<and>
   result (ws_onmessage awaiting_t1 (Json (completed_msg (Some ''t1'') ''done''))) =
     Some (summary_result ''done'') \<and>
   \<not> live (ws_onmessage awaiting_t1 (Json (completed_msg (Some ''t1'') ''done''))) 2 \<and>
   result (poll_resume awaiting_t1 2 (PollOk ''error'' None) ''12:02'') = Some poll_failed_result \<and>
   result (ws_onmessage (poll_resume awaiting_t1 2 (PollOk ''error'' None) ''12:02'')
             (Json (completed_msg (Some ''t1'') ''done''))) = Some (summary_result ''done'') \<and>
   result (poll_resume (ws_onmessage awaiting_t1 (Json (completed_msg (Some ''t1'') ''done'')))
             2 (PollOk ''error'' None) ''12:02'') = Some poll_failed_result"
proof -
  let ?pc = "\<lparr> pollCount = 0, newTaskId = ''t1'', cap_showResults = False, cap_agentLogs = [] \<rparr>"
  have h1: "taskIdRef awaiting_t1 = Some ''t1''" by (simp add: awaiting_t1_eq)
  have h2: "m_task_id (completed_msg (Some ''t1'') ''done'') = Some ''t1''"
    by (simp add: completed_msg_def)
  have h3: "m_type (completed_msg (Some ''t1'') ''done'') = ''task_completed'' \<or>
            m_type (completed_msg (Some ''t1'') ''done'') = ''task_error''"
    by (simp add: completed_msg_def)
  have h4: "map_of (closures awaiting_t1) 2 = Some ?pc" by (simp add: awaiting_t1_eq)
  have h5: "pollCount ?pc < maxPolls" by (simp add: maxPolls_def)
  have h6: "\<not> nonterminal_response (PollOk ''error'' None)"
    by (simp add: nonterminal_response_def)
  have r: "pollIntervalRef awaiting_t1 = Some 2" by (simp add: awaiting_t1_eq)
  show ?thesis
    using terminal_signal_cancels_poll [OF h1 h2 h3 h4 h5 h6, where p = 2 and ok = True
            and now = "''12:02''"]
          h1 h2 h4 h6 r
    by (simp add: push_result_def poll_result_def completed_msg_def)
qed

section \<open>The start button (C7)\<close>

text \<open>
  Claim C7, as stated, fails: while the session awaiting \<^verbatim>\<open>t1\<close> is running, a click on
  the start button runs nothing, so no error of any kind is surfaced; and the handler
  itself, called in that state, does not refuse: it rebinds the task id to \<^verbatim>\<open>t2\<close>.
\<close>

theorem busy_start_surfaces_nothing:
  "isRunning awaiting_t1 \<and>
   start_click awaiting_t1 (js ''again'') [] (Some ''tok'') True = (awaiting_t1, False) \<and>
   outbox (fst (start_click awaiting_t1 (js ''again'') [] (Some ''tok'') True)) = outbox awaiting_t1 \<and>
   taskIdRef awaiting_t1 = Some ''t1'' \<and>
   taskIdRef (handleStartTaskWithFiles awaiting_t1 (js ''again'') [] (Some ''tok'') True (CreateOk ''t2''))
     = Some ''t2''"
proof -
  have a: "isRunning awaiting_t1" by (simp add: awaiting_t1_eq)
  have b: "start_click awaiting_t1 (js ''again'') [] (Some ''tok'') True = (awaiting_t1, False)"
    using a by (simp add: start_click_def start_disabled_def)
  have c: "taskIdRef (handleStartTaskWithFiles awaiting_t1 (js ''again'') [] (Some ''tok'') True
             (CreateOk ''t2'')) = Some ''t2''"
    by (simp add: awaiting_t1_eq handler_defs)
  show ?thesis using a b c by (simp add: awaiting_t1_eq)
qed

text \<open>
  Claim C7, amended. A click on the start button is accepted only while \<^verbatim>\<open>isRunning\<close> is
  false and the description is not blank: then the handler runs. While \<^verbatim>\<open>isRunning\<close> is
  true, or the description trims to nothing, the button is disabled and the click leaves
  the whole state, the list of outward actions included, as it was: the session in flight
  is unchanged and nothing is surfaced. The handler itself does not test \<^verbatim>\<open>isRunning\<close>:
  called in any state with a description that is not blank and a token, it resets the
  session, issues the request to create the task and binds the new task id.
\<close>

theorem start_button_gate:
  "(isRunning s \<longrightarrow> start_click s task files token ok = (s, False)) \<and>
   (blank task \<longrightarrow> start_click s task files token ok = (s, False)) \<and>
   (\<not> isRunning s \<and> \<not> blank task \<longrightarrow>
      start_click s task files token ok = start_request s task files token ok) \<and>
   (\<not> blank task \<and> truthy token \<longrightarrow>
      submit_begin s task token =
        (s\<lparr> isRunning := True, showResults := False, result := None, agentLogs := [],
            uploadProgress := [], taskIdRef := None \<rparr>, True) \<and>
      snd (start_request s task [] token ok) \<and>
      outbox (fst (start_request s task [] token ok)) = outbox s @ [CreateTaskReq task []] \<and>
      taskIdRef (handleStartTaskWithFiles s task [] token ok (CreateOk tid)) = Some tid)"
proof -
  have gate: "(isRunning s \<longrightarrow> start_click s task files token ok = (s, False)) \<and>
      (blank task \<longrightarrow> start_click s task files token ok = (s, False)) \<and>
      (\<not> isRunning s \<and> \<not> blank task \<longrightarrow>
        start_click s task files token ok = start_request s task files token ok)"
    by (simp add: start_click_def start_disabled_def handleStart_def)
  have handler: "submit_begin s task token =
        (s\<lparr> isRunning := True, showResults := False, result := None, agentLogs := [],
            uploadProgress := [], taskIdRef := None \<rparr>, True) \<and>
      snd (start_request s task [] token ok) \<and>
      outbox (fst (start_request s task [] token ok)) = outbox s @ [CreateTaskReq task []] \<and>
      taskIdRef (handleStartTaskWithFiles s task [] token ok (CreateOk tid)) = Some tid"
    if "\<not> blank task" and "truthy token"
  proof -
    have b: "submit_begin s task token =
        (s\<lparr> isRunning := True, showResults := False, result := None, agentLogs := [],
            uploadProgress := [], taskIdRef := None \<rparr>, True)"
      using that by (simp add: submit_begin_def)
    have r: "snd (start_request s task [] token ok) \<and>
      outbox (fst (start_request s task [] token ok)) = outbox s @ [CreateTaskReq task []]"
      using b by (simp add: start_request_def outbox_request_create)
    have t: "taskIdRef (handleStartTaskWithFiles s task [] token ok (CreateOk tid)) = Some tid"
      using b by (simp add: handleStartTaskWithFiles_def start_request_def task_created_def
                            setTimer_def)
    show ?thesis using b r t by simp
  qed
  show ?thesis using gate handler by blast
qed

text \<open>The witness for C7: a click while \<^verbatim>\<open>t1\<close> is awaited, a click with a description of
  one no-break space, a click on the idle page, and the handler called while \<^verbatim>\<open>t1\<close> is
  awaited.\<close>

theorem start_button_gate_witness:
  "isRunning awaiting_t1 \<and>
   start_click awaiting_t1 (js ''again'') [] (Some ''tok'') True = (awaiting_t1, False) \<and>
   blank [0xA0] \<and>
   start_click connected [0xA0] [] (Some ''tok'') True = (connected, False) \<and>
   \<not> isRunning connected \<and> \<not> blank (js ''report'') \<and> truthy (Some ''tok'') \<and>
   start_click connected (js ''report'') [] (Some ''tok'') True =
     start_request connected (js ''report'') [] (Some ''tok'') True \<and>
   outbox (fst (start_request awaiting_t1 (js ''again'') [] (Some ''tok'') True)) =
     outbox awaiting_t1 @ [CreateTaskReq (js ''again'') []] \<and>
   taskIdRef (handleStartTaskWithFiles awaiting_t1 (js ''again'') [] (Some ''tok'') True
                (CreateOk ''t2'')) = Some ''t2''"
proof -
  have a: "isRunning awaiting_t1" by (simp add: awaiting_t1_eq)
  have b: "\<not> isRunning connected" by (simp add: connected_eq)
  have c: "\<not> blank (js ''report'')" "\<not> blank (js ''again'')"
    by (simp_all add: js_def blank_def js_space_def)
  have d: "blank [0xA0]" by (simp add: blank_def js_space_def)
  have e: "truthy (Some ''tok'')" by (simp add: truthy_def)
  show ?thesis
    using start_button_gate [of awaiting_t1 "js ''again''" "[]" "Some ''tok''" True "''t2''"]
          start_button_gate [of connected "js ''report''" "[]" "Some ''tok''" True "''t2''"]
          start_button_gate [of connected "[0xA0]" "[]" "Some ''tok''" True "''t2''"]
          a b c d e
    by simp
qed

section \<open>Starting the poll twice (C8)\<close>

text \<open>
  Claim C8 on the code: after the first submission of \<open>double_start\<close> the button is enabled
  while the poll timer 2 runs; the second submission sets the poll timer 3 without
  clearing timer 2, so two poll timers run, \<^verbatim>\<open>pollIntervalRef\<close> holds only timer 3, and
  stopping the poll leaves timer 2 running. The same holds when the handler is called
  directly on the session awaiting \<^verbatim>\<open>t1\<close>.
\<close>

theorem second_start_keeps_first_poll_timer:
  "\<not> isRunning (run connected early_completion) \<and>
   render (run connected early_completion) =
     \<lparr> h_userId = Some (js ''u1''), h_wsConnected = True, h_showResults = True, h_agentLogs = [] \<rparr> \<and>
   map t_id (poll_timers (run connected early_completion)) = [2] \<and>
   map t_id (poll_timers (run connected double_start)) = [2, 3] \<and>
   pollIntervalRef (run connected double_start) = Some 3 \<and>
   live (stop_poll (run connected double_start)) 2 \<and>
   map t_id (poll_timers (handleStartTaskWithFiles awaiting_t1 (js ''again'') [] (Some ''tok'') True
                            (CreateOk ''t2''))) = [2, 3]"
proof -
  have a: "\<not> isRunning (run connected early_completion) \<and>
           render (run connected early_completion) =
             \<lparr> h_userId = Some (js ''u1''), h_wsConnected = True, h_showResults = True,
               h_agentLogs = [] \<rparr> \<and>
           map t_id (poll_timers (run connected early_completion)) = [2]"
    by (simp add: early_completion_eq poll_timers_def render_def)
  have b: "map t_id (poll_timers (run connected double_start)) = [2, 3] \<and>
           pollIntervalRef (run connected double_start) = Some 3 \<and>
           live (stop_poll (run connected double_start)) 2"
    by (simp add: double_start_eq poll_timers_def live_def stop_poll_def clearTimer_def)
  have c: "map t_id (poll_timers (handleStartTaskWithFiles awaiting_t1 (js ''again'') [] (Some ''tok'')
             True (CreateOk ''t2''))) = [2, 3]"
    by (simp add: awaiting_t1_eq poll_timers_def handler_defs)
  show ?thesis using a b c by simp
qed

section \<open>The check at the head of a tick (C9)\<close>

text \<open>
  Claim C9 on the code: the check at the head of a tick reads the \<^verbatim>\<open>showResults\<close> and
  \<^verbatim>\<open>agentLogs\<close> of the render that created the handler. In \<open>resubmitted\<close> the session is
  running with no result shown and no log, yet the first tick of its poll timer cancels
  the timer without a request, because the previous result was on screen at the click.
  After \<open>early_completion\<close> a result is shown and the session is not running, yet the tick
  issues its request, because nothing was shown at the click.
\<close>

theorem tick_check_reads_submission_render:
  "\<not> showResults resubmitted \<and> agentLogs resubmitted = [] \<and> isRunning resubmitted \<and>
   result resubmitted = None \<and> pollIntervalRef resubmitted = Some 3 \<and> live resubmitted 3 \<and>
   poll_timers (fire resubmitted 3 True) = [] \<and>
   pollIntervalRef (fire resubmitted 3 True) = None \<and>
   outbox (fire resubmitted 3 True) = outbox resubmitted \<and>
   isRunning (fire resubmitted 3 True) \<and>
   showResults (run connected early_completion) \<and>
   \<not> isRunning (run connected early_completion) \<and>
   outbox (fire (run connected early_completion) 2 True) =
     outbox (run connected early_completion) @ [GetTaskReq ''t1'']"
proof -
  have a: "\<not> showResults resubmitted \<and> agentLogs resubmitted = [] \<and> isRunning resubmitted \<and>
           result resubmitted = None \<and> pollIntervalRef resubmitted = Some 3 \<and> live resubmitted 3"
    by (simp add: resubmitted_eq live_def)
  have b: "poll_timers (fire resubmitted 3 True) = [] \<and>
           pollIntervalRef (fire resubmitted 3 True) = None \<and>
           outbox (fire resubmitted 3 True) = outbox resubmitted \<and>
           isRunning (fire resubmitted 3 True)"
    by (simp add: resubmitted_eq poll_timers_def handler_defs)
  have c: "showResults (run connected early_completion) \<and>
           \<not> isRunning (run connected early_completion) \<and>
           outbox (fire (run connected early_completion) 2 True) =
             outbox (run connected early_completion) @ [GetTaskReq ''t1'']"
    by (simp add: early_completion_eq handler_defs)
  show ?thesis using a b c by simp
qed

end
